theory Spec2Isabelle
  imports Main "HOL-Library.Word" "HOL-Library.Multiset"
    "HOL-Library.List_Lexorder" "HOL-Library.Product_Lexorder"
begin

section \<open>Go strings and the standard-library functions the sources call\<close>

text \<open>
  A Go string is modelled by the sequence of runes (Unicode code points) that ranging over
  it, or \<^verbatim>\<open>strings.Map\<close>, sees. For well-formed UTF-8 text the byte-oriented functions
  used by the sources (\<^verbatim>\<open>strings.HasPrefix\<close>, \<^verbatim>\<open>strings.TrimPrefix\<close>, \<^verbatim>\<open>strings.Cut\<close> with an
  ASCII separator, \<^verbatim>\<open>strconv.ParseInt\<close>) act on the runes exactly as they act on the bytes.
  \<open>str\<close> turns an ASCII literal of the source into such a sequence.
\<close>

type_synonym rune = nat
type_synonym gostring = "rune list"

definition str :: "string \<Rightarrow> gostring" where
  "str s = map of_char s"

definition rune_of :: "char \<Rightarrow> rune" where
  "rune_of c = of_char c"

text \<open>\<^verbatim>\<open>strings.HasPrefix(s, prefix)\<close>.\<close>

fun HasPrefix :: "gostring \<Rightarrow> gostring \<Rightarrow> bool" where
  "HasPrefix s [] = True"
| "HasPrefix [] (p # ps) = False"
| "HasPrefix (c # cs) (p # ps) = (c = p \<and> HasPrefix cs ps)"

text \<open>\<^verbatim>\<open>strings.TrimPrefix(s, prefix)\<close>: \<open>s\<close> without the prefix when it has it, else \<open>s\<close>.\<close>

definition TrimPrefix :: "gostring \<Rightarrow> gostring \<Rightarrow> gostring" where
  "TrimPrefix s prefix = (if HasPrefix s prefix then drop (length prefix) s else s)"

text \<open>
  \<^verbatim>\<open>strings.Cut(s, sep)\<close> for a one-character separator: the text before the first
  occurrence of \<open>sep\<close>, the text after it, and whether \<open>sep\<close> occurs. When it does not
  occur the result is \<open>(s, "", false)\<close>.
\<close>

fun Cut :: "gostring \<Rightarrow> rune \<Rightarrow> gostring \<times> gostring \<times> bool" where
  "Cut [] sep = ([], [], False)"
| "Cut (c # cs) sep =
     (if c = sep then ([], cs, True)
      else (case Cut cs sep of (before, after, found) \<Rightarrow> (c # before, after, found)))"

text \<open>
  \<^verbatim>\<open>unicode.IsLetter\<close> and \<^verbatim>\<open>unicode.IsDigit\<close>. Both answer from a fixed property table for
  runes up to \<^verbatim>\<open>unicode.MaxLatin1\<close> (U+00FF) and from the Unicode range tables beyond. The
  Latin-1 part is written out; the range tables of the Go distribution are not part of the
  sources and are taken as the parameter \<open>T\<close>.
\<close>

record range_tables =
  Letter :: "rune \<Rightarrow> bool"
  Digit :: "rune \<Rightarrow> bool"

definition MaxLatin1 :: rune where
  "MaxLatin1 = 255"

definition latin1_letter :: "rune \<Rightarrow> bool" where
  "latin1_letter r =
     ((65 \<le> r \<and> r \<le> 90) \<or> (97 \<le> r \<and> r \<le> 122) \<or> r = 170 \<or> r = 181 \<or> r = 186 \<or>
      (192 \<le> r \<and> r \<le> 214) \<or> (216 \<le> r \<and> r \<le> 246) \<or> (248 \<le> r \<and> r \<le> 255))"

definition IsLetter :: "range_tables \<Rightarrow> rune \<Rightarrow> bool" where
  "IsLetter T r = (if r \<le> MaxLatin1 then latin1_letter r else Letter T r)"

definition IsDigit :: "range_tables \<Rightarrow> rune \<Rightarrow> bool" where
  "IsDigit T r = (if r \<le> MaxLatin1 then 48 \<le> r \<and> r \<le> 57 else Digit T r)"

text \<open>
  \<^verbatim>\<open>strings.Map(mapping, s)\<close>: the mapping applied to every rune of \<open>s\<close>. (Go drops a rune
  whose image is negative; the mappings of these sources never return one.)
\<close>

definition strings_Map :: "(rune \<Rightarrow> rune) \<Rightarrow> gostring \<Rightarrow> gostring" where
  "strings_Map mapping s = map mapping s"

section \<open>Package tshttp: the server and its initialisation\<close>

definition sanitize_rune :: "range_tables \<Rightarrow> rune \<Rightarrow> rune" where
  "sanitize_rune T r =
     (if IsLetter T r \<or> IsDigit T r \<or> r = rune_of CHR ''-'' then r else rune_of CHR ''_'')"

definition sanitize :: "range_tables \<Rightarrow> gostring \<Rightarrow> gostring" where
  "sanitize T path = strings_Map (sanitize_rune T) path"

text \<open>
  Of a \<^verbatim>\<open>zap.Logger\<close> the initialisation only asks whether its core lets debug entries
  through; \<^verbatim>\<open>zap.NewNop()\<close> lets nothing through.
\<close>

record logger =
  debug_enabled :: bool
  logger_name :: gostring

definition NewNop :: logger where
  "NewNop = \<lparr>debug_enabled = False, logger_name = []\<rparr>"

text \<open>\<^verbatim>\<open>Logger.Named(n)\<close>: the name is appended to the logger's own, after a period.\<close>

definition Named :: "logger \<Rightarrow> gostring \<Rightarrow> logger" where
  "Named l n =
     l\<lparr>logger_name := (if logger_name l = [] then n else logger_name l @ str ''.'' @ n)\<rparr>"

datatype logf = Discard | Infof logger

text \<open>The fields of \<^verbatim>\<open>tsnet.Server\<close> that \<^verbatim>\<open>init\<close> sets.\<close>

record tsnet_Server =
  Dir :: gostring
  Hostname :: gostring
  tsnet_ControlURL :: gostring
  Logf :: logf

text \<open>
  \<^verbatim>\<open>tshttp.Server\<close>. A nil logger and a nil \<^verbatim>\<open>tailnet\<close> pointer are \<open>None\<close>; \<open>initOnce\<close>
  is the state of the \<^verbatim>\<open>sync.Once\<close> (has it run).
\<close>

record Server =
  Logger :: "logger option"
  Name :: gostring
  ControlURL :: gostring
  StateDir :: gostring
  Debug :: bool
  tailnet :: "tsnet_Server option"
  initOnce :: bool

text \<open>
  The outcome of \<^verbatim>\<open>os.MkdirAll(dir, 0o700)\<close> is the file system's: \<open>None\<close> for nil,
  \<open>ErrExist\<close> for an error that \<^verbatim>\<open>errors.Is(err, fs.ErrExist)\<close> accepts, \<open>ErrOther\<close> for any
  other error. The file system is the parameter \<open>mkdir\<close>.
\<close>

datatype fs_error = ErrExist | ErrOther

text \<open>\<^verbatim>\<open>Logger.Fatal\<close> ends the process: the initialisation then returns nothing.\<close>

datatype fatal = Fatal gostring fs_error

text \<open>
  The body of \<^verbatim>\<open>init\<close> in the order of its statements: the three defaults, the choice of
  the overlay's log function, the state directory and its creation, the handle. The debug
  entry \<^verbatim>\<open>tshttp init\<close> it logs changes nothing and is left out.
\<close>

definition init_defaults :: "Server \<Rightarrow> Server" where
  "init_defaults s0 =
     (let s1 = (if Logger s0 = None then s0\<lparr>Logger := Some NewNop\<rparr> else s0);
          s2 = (if Name s1 = [] then s1\<lparr>Name := str ''unknown''\<rparr> else s1)
      in (if StateDir s2 = [] then s2\<lparr>StateDir := str ''.''\<rparr> else s2))"

definition init_logf :: "Server \<Rightarrow> logf" where
  "init_logf s =
     (let lg = (case Logger s of Some l \<Rightarrow> l | None \<Rightarrow> NewNop)
      in if Debug s \<or> debug_enabled lg
         then Infof (Named lg (str ''tsnet.Server'')) else Discard)"

definition init_dir :: "range_tables \<Rightarrow> Server \<Rightarrow> gostring" where
  "init_dir T s = StateDir s @ str ''/data-'' @ sanitize T (Name s)"

definition init :: "range_tables \<Rightarrow> (gostring \<Rightarrow> fs_error option) \<Rightarrow> Server \<Rightarrow> fatal + Server" where
  "init T mkdir s0 =
     (let s = init_defaults s0;
          logf = init_logf s;
          dir = init_dir T s
      in case mkdir dir of
           Some ErrOther \<Rightarrow> Inl (Fatal (str ''unable to create state dir'') ErrOther)
         | _ \<Rightarrow> Inr (s\<lparr>tailnet := Some \<lparr>Dir = dir, Hostname = Name s,
                                       tsnet_ControlURL = ControlURL s, Logf = logf\<rparr>\<rparr>))"

text \<open>\<^verbatim>\<open>s.initOnce.Do(s.init)\<close>: \<^verbatim>\<open>init\<close> runs on the first call only.\<close>

definition initOnce_Do :: "range_tables \<Rightarrow> (gostring \<Rightarrow> fs_error option) \<Rightarrow> Server \<Rightarrow> fatal + Server" where
  "initOnce_Do T mkdir s =
     (if initOnce s then Inr s
      else case init T mkdir s of
             Inl f \<Rightarrow> Inl f
           | Inr s' \<Rightarrow> Inr (s'\<lparr>initOnce := True\<rparr>))"

text \<open>\<^verbatim>\<open>Tailnet()\<close>: the initialised server and its \<^verbatim>\<open>tsnet.Server\<close>.\<close>

definition Tailnet :: "range_tables \<Rightarrow> (gostring \<Rightarrow> fs_error option) \<Rightarrow> Server
    \<Rightarrow> fatal + (Server \<times> tsnet_Server option)" where
  "Tailnet T mkdir s =
     (case initOnce_Do T mkdir s of
        Inl f \<Rightarrow> Inl f
      | Inr s' \<Rightarrow> Inr (s', tailnet s'))"

section \<open>Command tailmon: the exporter registration\<close>

text \<open>
  Errors as values: \<^verbatim>\<open>errors.New(text)\<close>, the \<^verbatim>\<open>*strconv.NumError\<close> of the integer parser
  (function name, the text it was given, \<^verbatim>\<open>ErrSyntax\<close> or \<^verbatim>\<open>ErrRange\<close>), and an error
  returned by the overlay library.
\<close>

datatype num_err = ErrSyntax | ErrRange

datatype error = ErrorsNew gostring | NumError gostring gostring num_err | LibraryError gostring

text \<open>
  \<^verbatim>\<open>strconv.ParseUint(s, 10, 64)\<close>. The loop reads the text from the left with the
  accumulator \<open>n\<close>, an unsigned 64-bit integer (the wrap-around is written out); it stops at
  the first character that is not a decimal digit (syntax error) and at the first overflow
  (range error, with the largest value). \<open>cutoff\<close> is the smallest \<open>n\<close> with
  \<open>n * 10 > 2^64 - 1\<close>.
\<close>

definition maxUint64 :: nat where
  "maxUint64 = 2 ^ 64 - 1"

definition uint_cutoff :: nat where
  "uint_cutoff = maxUint64 div 10 + 1"

definition is_digit :: "rune \<Rightarrow> bool" where
  "is_digit c = (rune_of CHR ''0'' \<le> c \<and> c \<le> rune_of CHR ''9'')"

fun ParseUint_loop :: "nat \<Rightarrow> gostring \<Rightarrow> nat \<times> num_err option" where
  "ParseUint_loop n [] = (n, None)"
| "ParseUint_loop n (c # cs) =
     (if is_digit c then
        (let d = c - rune_of CHR ''0'' in
         if n \<ge> uint_cutoff then (maxUint64, Some ErrRange)
         else (let n' = (n * 10) mod 2 ^ 64;
                   n1 = (n' + d) mod 2 ^ 64
               in if n1 < n' \<or> n1 > maxUint64 then (maxUint64, Some ErrRange)
                  else ParseUint_loop n1 cs))
      else (0, Some ErrSyntax))"

definition ParseUint :: "gostring \<Rightarrow> nat \<times> num_err option" where
  "ParseUint s = (if s = [] then (0, Some ErrSyntax) else ParseUint_loop 0 s)"

text \<open>
  \<^verbatim>\<open>strconv.ParseInt(s, 10, 64)\<close>: an optional sign, then \<^verbatim>\<open>ParseUint\<close>; a syntax error is
  reported for the whole text \<open>s0\<close>, and the magnitude must fit a signed 64-bit integer.
\<close>

definition int_cutoff :: nat where
  "int_cutoff = 2 ^ 63"

definition ParseInt :: "gostring \<Rightarrow> error + int" where
  "ParseInt s0 =
     (case s0 of
        [] \<Rightarrow> Inl (NumError (str ''ParseInt'') s0 ErrSyntax)
      | c # cs \<Rightarrow>
         (let neg = (c = rune_of CHR ''-'');
              s = (if c = rune_of CHR ''+'' \<or> c = rune_of CHR ''-'' then cs else s0)
          in case ParseUint s of
               (un, Some ErrSyntax) \<Rightarrow> Inl (NumError (str ''ParseInt'') s0 ErrSyntax)
             | (un, _) \<Rightarrow>
                 if \<not> neg \<and> un \<ge> int_cutoff then Inl (NumError (str ''ParseInt'') s0 ErrRange)
                 else if neg \<and> un > int_cutoff then Inl (NumError (str ''ParseInt'') s0 ErrRange)
                 else Inr (if neg then - int un else int un)))"

text \<open>The \<^verbatim>\<open>exporter\<close> struct; \<^verbatim>\<open>int\<close> is taken to be 64 bits wide.\<close>

record exporter =
  name :: gostring
  port :: int
  hostname :: gostring

definition TailscaleNodeName :: "exporter \<Rightarrow> gostring" where
  "TailscaleNodeName e = str ''tailmon/'' @ name e @ str ''/'' @ hostname e"

text \<open>
  \<^verbatim>\<open>newExporter(value)\<close>. The answer of \<^verbatim>\<open>os.Hostname()\<close> is the machine's and is the
  parameter \<open>os_Hostname\<close> (\<open>None\<close> when it returns an error).
\<close>

definition newExporter :: "gostring option \<Rightarrow> gostring \<Rightarrow> error + exporter" where
  "newExporter os_Hostname val =
     (case Cut val (rune_of CHR '':'') of
        (nm, portStr, ok) \<Rightarrow>
          if \<not> ok then Inl (ErrorsNew (str ''use name-exporter:port format''))
          else (case ParseInt portStr of
                  Inl err \<Rightarrow> Inl err
                | Inr p \<Rightarrow>
                    (let h = (case os_Hostname of None \<Rightarrow> str ''unknown'' | Some hn \<Rightarrow> hn)
                     in Inr \<lparr>name = nm, port = p, hostname = h\<rparr>)))"

section \<open>Command tailmon-discover: network addresses\<close>

text \<open>
  \<^verbatim>\<open>netip.Addr\<close> of the Go library: the zero value (no address), an IPv4 address of 32 bits,
  or an IPv6 address of 128 bits with a zone (empty for none). An IPv4-mapped IPv6 address
  is an IPv6 address: \<^verbatim>\<open>Is4\<close> answers false for it.
\<close>

datatype Addr = AddrZero | Addr4 "32 word" | Addr6 "128 word" gostring

fun Is4 :: "Addr \<Rightarrow> bool" where
  "Is4 (Addr4 w) = True"
| "Is4 a = False"

fun Is6 :: "Addr \<Rightarrow> bool" where
  "Is6 (Addr6 w z) = True"
| "Is6 a = False"

fun BitLen :: "Addr \<Rightarrow> nat" where
  "BitLen AddrZero = 0"
| "BitLen (Addr4 w) = 32"
| "BitLen (Addr6 w z) = 128"

fun Zone :: "Addr \<Rightarrow> gostring" where
  "Zone (Addr6 w z) = z"
| "Zone a = []"

text \<open>
  The 128 bits the library keeps for an address, as its two 64-bit halves \<open>hi\<close> and \<open>lo\<close>: an
  IPv4 address is kept in its IPv4-mapped form \<open>0:0:0:0:0:ffff:a.b.c.d\<close>.
\<close>

fun addr_value :: "Addr \<Rightarrow> nat" where
  "addr_value AddrZero = 0"
| "addr_value (Addr4 w) = 65535 * 2 ^ 32 + unat w"
| "addr_value (Addr6 w z) = unat w"

definition addr_hi :: "Addr \<Rightarrow> nat" where
  "addr_hi a = addr_value a div 2 ^ 64"

definition addr_lo :: "Addr \<Rightarrow> nat" where
  "addr_lo a = addr_value a mod 2 ^ 64"

text \<open>Go's \<open><\<close> on strings: lexicographic by character.\<close>

fun string_less :: "gostring \<Rightarrow> gostring \<Rightarrow> bool" where
  "string_less [] [] = False"
| "string_less [] (y # ys) = True"
| "string_less (x # xs) [] = False"
| "string_less (x # xs) (y # ys) = (x < y \<or> (x = y \<and> string_less xs ys))"

text \<open>
  \<^verbatim>\<open>Addr.Compare\<close>, the natural ordering of addresses: by bit length first (no address, then
  IPv4, then IPv6), then by the 128 bits (\<open>hi\<close>, then \<open>lo\<close>), then, for IPv6, by zone.
  \<^verbatim>\<open>Addr.Less\<close> is \<^verbatim>\<open>Compare(..) == -1\<close>.
\<close>

definition Compare :: "Addr \<Rightarrow> Addr \<Rightarrow> int" where
  "Compare a b =
     (if BitLen a < BitLen b then - 1
      else if BitLen a > BitLen b then 1
      else if addr_hi a < addr_hi b then - 1
      else if addr_hi a > addr_hi b then 1
      else if addr_lo a < addr_lo b then - 1
      else if addr_lo a > addr_lo b then 1
      else if Is6 a then
        (if string_less (Zone a) (Zone b) then - 1
         else if string_less (Zone b) (Zone a) then 1
         else 0)
      else 0)"

definition Less :: "Addr \<Rightarrow> Addr \<Rightarrow> bool" where
  "Less a b = (Compare a b = - 1)"

text \<open>
  \<^verbatim>\<open>Addr.String\<close>. Decimal and hexadecimal digits first; then the dotted form of IPv4, and
  the form of IPv6 with the first longest run of two or more zero groups written \<open>::\<close>
  (an IPv4-mapped address as \<open>::ffff:a.b.c.d\<close>), the zone after a \<open>%\<close>.
\<close>

fun dec_digits :: "nat \<Rightarrow> gostring" where
  "dec_digits n =
     (if n < 10 then [rune_of CHR ''0'' + n]
      else dec_digits (n div 10) @ [rune_of CHR ''0'' + n mod 10])"

fun hex_digits :: "nat \<Rightarrow> gostring" where
  "hex_digits n =
     (if n < 16 then [str ''0123456789abcdef'' ! n]
      else hex_digits (n div 16) @ [str ''0123456789abcdef'' ! (n mod 16)])"

text \<open>\<^verbatim>\<open>%d\<close> of \<^verbatim>\<open>fmt.Sprintf\<close> for an \<^verbatim>\<open>int\<close>.\<close>

definition itoa :: "int \<Rightarrow> gostring" where
  "itoa i = (if i < 0 then rune_of CHR ''-'' # dec_digits (nat (- i)) else dec_digits (nat i))"

definition string4 :: "nat \<Rightarrow> gostring" where
  "string4 n =
     dec_digits (n div 2 ^ 24 mod 256) @ str ''.'' @ dec_digits (n div 2 ^ 16 mod 256) @ str ''.'' @
     dec_digits (n div 2 ^ 8 mod 256) @ str ''.'' @ dec_digits (n mod 256)"

definition v6u16 :: "nat \<Rightarrow> nat \<Rightarrow> nat" where
  "v6u16 n i = n div 2 ^ (16 * (7 - i)) mod 65536"

text \<open>The end of the run of zero groups that starts at group \<open>i\<close>.\<close>

function zero_run_end :: "nat \<Rightarrow> nat \<Rightarrow> nat" where
  "zero_run_end n j = (if j < 8 \<and> v6u16 n j = 0 then zero_run_end n (Suc j) else j)"
  by pat_completeness auto
termination
  by (relation "measure (\<lambda>(n, j). 8 - j)") auto

text \<open>
  The search for the run to compress: \<open>(zeroStart, zeroEnd)\<close>, both 255 at the start, is
  replaced by a run of at least two groups that is longer than the one held.
\<close>

function find_zero_run :: "nat \<Rightarrow> nat \<Rightarrow> nat \<times> nat \<Rightarrow> nat \<times> nat" where
  "find_zero_run n i (zeroStart, zeroEnd) =
     (if i < 8 then
        (let j = zero_run_end n i; l = j - i
         in find_zero_run n (Suc i)
              (if l \<ge> 2 \<and> l > zeroEnd - zeroStart then (i, j) else (zeroStart, zeroEnd)))
      else (zeroStart, zeroEnd))"
  by pat_completeness auto
termination
  by (relation "measure (\<lambda>(n, i, z). 8 - i)") auto

fun join_groups :: "gostring list \<Rightarrow> gostring" where
  "join_groups [] = []"
| "join_groups [g] = g"
| "join_groups (g # gs) = g @ str '':'' @ join_groups gs"

definition string6 :: "nat \<Rightarrow> gostring" where
  "string6 n =
     (case find_zero_run n 0 (255, 255) of
        (zeroStart, zeroEnd) \<Rightarrow>
          if zeroStart = 255 then join_groups (map (\<lambda>i. hex_digits (v6u16 n i)) [0..<8])
          else join_groups (map (\<lambda>i. hex_digits (v6u16 n i)) [0..<zeroStart]) @ str ''::'' @
               join_groups (map (\<lambda>i. hex_digits (v6u16 n i)) [zeroEnd..<8]))"

definition Is4In6 :: "Addr \<Rightarrow> bool" where
  "Is4In6 a = (Is6 a \<and> addr_hi a = 0 \<and> addr_lo a div 2 ^ 32 = 65535)"

definition zone_suffix :: "gostring \<Rightarrow> gostring" where
  "zone_suffix z = (if z = [] then [] else rune_of CHR ''%'' # z)"

definition String :: "Addr \<Rightarrow> gostring" where
  "String a =
     (case a of
        AddrZero \<Rightarrow> str ''invalid IP''
      | Addr4 w \<Rightarrow> string4 (unat w)
      | Addr6 w z \<Rightarrow>
          if Is4In6 a then str ''::ffff:'' @ string4 (unat w mod 2 ^ 32) @ zone_suffix z
          else string6 (unat w) @ zone_suffix z)"

text \<open>
  The key that the statements about \<^verbatim>\<open>Compare\<close> order addresses by, lexicographically.
\<close>

definition addr_key :: "Addr \<Rightarrow> nat \<times> nat \<times> nat \<times> gostring" where
  "addr_key a = (BitLen a, addr_hi a, addr_lo a, Zone a)"

section \<open>Command tailmon-discover: the enumerator\<close>

text \<open>
  \<^verbatim>\<open>formatAddr\<close>: the address and the port, the address in brackets unless it is IPv4.
\<close>

definition formatAddr :: "Addr \<Rightarrow> int \<Rightarrow> gostring" where
  "formatAddr addr p =
     (if Is4 addr then String addr @ str '':'' @ itoa p
      else str ''['' @ String addr @ str '']:'' @ itoa p)"

text \<open>
  The fields of the overlay's \<^verbatim>\<open>ipnstate.PeerStatus\<close> and \<^verbatim>\<open>ipnstate.Status\<close> that the
  sources read. \<open>Peer\<close> is a Go map; it is given as the list of its values in the order the
  \<^verbatim>\<open>range\<close> statement visits them (the encounter order).
\<close>

record PeerStatus =
  PeerID :: gostring
  HostName :: gostring
  DNSName :: gostring
  TailscaleIPs :: "Addr list"

record Status =
  BackendState :: gostring
  AuthURL :: gostring
  Health :: "gostring list"
  SelfIPs :: "Addr list"
  Self :: PeerStatus
  Peer :: "PeerStatus list"

text \<open>
  The \<^verbatim>\<open>Endpoint\<close> struct. \<open>Labels\<close> is the map literal of the source as its key-value pairs.
\<close>

record Endpoint =
  ip :: Addr
  Targets :: "gostring list"
  Labels :: "(gostring \<times> gostring) list"

text \<open>
  A slice that may be nil: \<open>None\<close> is the nil slice (\<^verbatim>\<open>var endpoints []*Endpoint\<close>), and
  \<^verbatim>\<open>append\<close> to it gives a slice that is not nil.
\<close>

type_synonym 'a slice = "'a list option"

definition append_slice :: "'a slice \<Rightarrow> 'a \<Rightarrow> 'a slice" where
  "append_slice sl x = (case sl of None \<Rightarrow> Some [x] | Some xs \<Rightarrow> Some (xs @ [x]))"

definition slice_elems :: "'a slice \<Rightarrow> 'a list" where
  "slice_elems sl = (case sl of None \<Rightarrow> [] | Some xs \<Rightarrow> xs)"

definition tailmon_prefix :: gostring where
  "tailmon_prefix = str ''tailmon/''"

text \<open>The body of the loop for a peer that is not skipped, \<open>ip0\<close> its first address.\<close>

definition peer_endpoint :: "PeerStatus \<Rightarrow> Addr \<Rightarrow> Endpoint" where
  "peer_endpoint v ip0 =
     (case Cut (TrimPrefix (HostName v) tailmon_prefix) (rune_of CHR ''/'') of
        (exporter0, node0, ok) \<Rightarrow>
          (let exporter = (if \<not> ok then HostName v else exporter0);
               node = (if \<not> ok then str ''unknown'' else node0)
           in \<lparr>ip = ip0,
               Targets = [formatAddr ip0 80],
               Labels = [(str ''__meta_tailmon_node_name'', node),
                         (str ''__meta_tailmon_exporter_name'', exporter),
                         (str ''__meta_tailscale_dns_name'', DNSName v)]\<rparr>))"

fun endpoints_loop :: "PeerStatus list \<Rightarrow> Endpoint slice \<Rightarrow> Endpoint slice" where
  "endpoints_loop [] endpoints = endpoints"
| "endpoints_loop (v # vs) endpoints =
     (if \<not> HasPrefix (HostName v) tailmon_prefix then endpoints_loop vs endpoints
      else (case TailscaleIPs v of
              [] \<Rightarrow> endpoints_loop vs endpoints
            | ip0 # ips \<Rightarrow> endpoints_loop vs (append_slice endpoints (peer_endpoint v ip0))))"

text \<open>
  \<^verbatim>\<open>sort.SliceStable(x, less)\<close>: the stable sort of the library, given as insertion from the
  back: an element goes in front of the first one that is not less than it, so it stays in
  front of the later elements it is tied with. Sorting the nil slice leaves it nil.
\<close>

fun insert_stable :: "('a \<Rightarrow> 'a \<Rightarrow> bool) \<Rightarrow> 'a \<Rightarrow> 'a list \<Rightarrow> 'a list" where
  "insert_stable lt x [] = [x]"
| "insert_stable lt x (y # ys) =
     (if lt y x then y # insert_stable lt x ys else x # y # ys)"

definition SliceStable :: "('a \<Rightarrow> 'a \<Rightarrow> bool) \<Rightarrow> 'a list \<Rightarrow> 'a list" where
  "SliceStable lt xs = foldr (insert_stable lt) xs []"

text \<open>
  The overlay as the enumerator sees it: whether \<^verbatim>\<open>LocalClient()\<close> fails, and the answer of
  \<^verbatim>\<open>Status(ctx)\<close>.
\<close>

record overlay =
  LocalClient :: "error option"
  Status_answer :: "error + Status"

definition findTailmonEndpoints :: "overlay \<Rightarrow> error + Endpoint slice" where
  "findTailmonEndpoints tn =
     (case LocalClient tn of
        Some err \<Rightarrow> Inl err
      | None \<Rightarrow>
         (case Status_answer tn of
            Inl err \<Rightarrow> Inl err
          | Inr status \<Rightarrow>
              Inr (map_option (SliceStable (\<lambda>a b. Less (ip a) (ip b)))
                     (endpoints_loop (Peer status) None))))"

text \<open>
  The JSON document that \<^verbatim>\<open>json.MarshalIndent\<close> writes, as the value the text denotes: a
  nil slice is \<open>null\<close>, any other slice an array; a struct is an object of its exported
  fields under their tags; a map is an object with its keys in ascending order.
\<close>

datatype json = JNull | JString gostring | JArray "json list" | JObject "(gostring \<times> json) list"

definition marshal_Endpoint :: "Endpoint \<Rightarrow> json" where
  "marshal_Endpoint e =
     JObject [(str ''targets'', JArray (map JString (Targets e))),
              (str ''labels'', JObject (map (\<lambda>(k, v). (k, JString v)) (sort_key fst (Labels e))))]"

definition marshal_slice :: "Endpoint slice \<Rightarrow> json" where
  "marshal_slice sl = (case sl of None \<Rightarrow> JNull | Some es \<Rightarrow> JArray (map marshal_Endpoint es))"

definition marshalEndpoints :: "overlay \<Rightarrow> error + json" where
  "marshalEndpoints tn =
     (case findTailmonEndpoints tn of
        Inl err \<Rightarrow> Inl err
      | Inr endpoints \<Rightarrow> Inr (marshal_slice endpoints))"

section \<open>What a handler or a background task does: effects\<close>

text \<open>
  Logging, sleeping and writing a response are effects; a run is the list of its effects in
  order. A log entry has a level, a message and fields (\<^verbatim>\<open>zap.String\<close>, \<^verbatim>\<open>zap.Strings\<close>,
  \<^verbatim>\<open>zap.Error\<close>). \<open>ProxyServeHTTP u r\<close> is \<^verbatim>\<open>proxy.ServeHTTP(w, r)\<close> of the reverse proxy built
  for the upstream URL \<open>u\<close>: the one effect that contacts the upstream. \<open>Sleep n\<close> is
  \<^verbatim>\<open>time.Sleep\<close> of \<open>n\<close> seconds.
\<close>

record Request =
  URL_Path :: gostring

datatype level = DebugLevel | InfoLevel | ErrorLevel

datatype field = zap_String gostring gostring | zap_Strings gostring "gostring list" | zap_Error error

datatype effect =
    Log level gostring "field list"
  | ProxyServeHTTP gostring Request
  | WriteHeader nat
  | WriteBody gostring
  | Sleep nat

section \<open>Command tailmon: the proxy request filter\<close>

definition StatusNotFound :: nat where
  "StatusNotFound = 404"

text \<open>The handler that \<^verbatim>\<open>NewProxyHandler(logger, upstreamURL, name)\<close> returns, run on \<open>r\<close>.\<close>

definition NewProxyHandler :: "gostring \<Rightarrow> gostring \<Rightarrow> Request \<Rightarrow> effect list" where
  "NewProxyHandler upstreamURL nm r =
     (if URL_Path r = str ''/metrics'' then
        [Log InfoLevel (str ''accept'') [zap_String (str ''path'') (URL_Path r)],
         ProxyServeHTTP upstreamURL r]
      else
        [Log InfoLevel (str ''reject'') [zap_String (str ''path'') (URL_Path r)],
         WriteHeader StatusNotFound,
         WriteBody (nm @ [rune_of CHR 0x0A])])"

section \<open>Package tshttp: the task that waits for authentication\<close>

text \<open>
  The task that \<^verbatim>\<open>Start\<close> launches queries \<^verbatim>\<open>StatusWithoutPeers\<close> once per turn of its loop.
  The answers are the overlay's; the loop is run on the list of the answers received so
  far, in order, and yields the effects so far and whether it is still polling, about to
  query again, or has left the loop. The status of a running node always has \<open>Self\<close>.
\<close>

datatype loop_state = NotEntered | Polling | Exited

definition log_status :: "Status \<Rightarrow> effect" where
  "log_status ss =
     Log DebugLevel (str ''status'')
       [zap_String (str ''BackendState'') (BackendState ss),
        zap_Strings (str ''Health'') (Health ss),
        zap_String (str ''AuthURL'') (AuthURL ss)]"

definition log_running :: "Status \<Rightarrow> effect" where
  "log_running ss =
     Log InfoLevel (str ''tailnet running'')
       [zap_String (str ''id'') (PeerID (Self ss)),
        zap_String (str ''dns'') (DNSName (Self ss)),
        zap_Strings (str ''ips'') (map String (SelfIPs ss))]"

fun poll_loop :: "(error + Status) list \<Rightarrow> effect list \<times> loop_state" where
  "poll_loop [] = ([], Polling)"
| "poll_loop (Inl err # answers) =
     (case poll_loop answers of
        (effects, st) \<Rightarrow>
          (Log ErrorLevel (str ''StatusWithoutPeers'') [zap_Error err] # Sleep 1 # effects, st))"
| "poll_loop (Inr ss # answers) =
     (if BackendState ss = str ''Running'' then ([log_status ss, log_running ss], Exited)
      else (case poll_loop answers of
              (effects, st) \<Rightarrow>
                (log_status ss #
                 (if AuthURL ss \<noteq> []
                  then [Log ErrorLevel (str ''Needs authentication'')
                          [zap_String (str ''url'') (AuthURL ss)]]
                  else []) @
                 Sleep 1 # effects, st)))"

text \<open>The whole task: without a local client it logs the error and returns.\<close>

definition auth_task :: "error option \<Rightarrow> (error + Status) list \<Rightarrow> effect list \<times> loop_state" where
  "auth_task client_err answers =
     (case client_err of
        Some err \<Rightarrow> ([Log ErrorLevel (str ''LocalClient'') [zap_Error err]], NotEntered)
      | None \<Rightarrow> poll_loop answers)"

text \<open>
  For the statements about the loop: does an answer show the state \<open>Running\<close>, and the
  effects of one turn of the loop on an answer that does not.
\<close>

definition shows_Running :: "error + Status \<Rightarrow> bool" where
  "shows_Running a = (case a of Inl err \<Rightarrow> False | Inr ss \<Rightarrow> BackendState ss = str ''Running'')"

definition turn_effects :: "error + Status \<Rightarrow> effect list" where
  "turn_effects a =
     (case a of
        Inl err \<Rightarrow> [Log ErrorLevel (str ''StatusWithoutPeers'') [zap_Error err], Sleep 1]
      | Inr ss \<Rightarrow>
          if AuthURL ss \<noteq> []
          then [log_status ss,
                Log ErrorLevel (str ''Needs authentication'') [zap_String (str ''url'') (AuthURL ss)],
                Sleep 1]
          else [log_status ss, Sleep 1])"

section \<open>Numbers, for the statements about the parser\<close>

text \<open>
  What the statements about the parser call a number: a non-empty run of decimal digits
  after an optional sign, and its value.
\<close>

definition decimal :: "gostring \<Rightarrow> bool" where
  "decimal ds = (ds \<noteq> [] \<and> list_all is_digit ds)"

fun dec_from :: "nat \<Rightarrow> gostring \<Rightarrow> nat" where
  "dec_from n [] = n"
| "dec_from n (c # cs) = dec_from (n * 10 + (c - rune_of CHR ''0'')) cs"

definition strip_sign :: "gostring \<Rightarrow> gostring" where
  "strip_sign s = (case s of [] \<Rightarrow> []
     | c # cs \<Rightarrow> if c = rune_of CHR ''+'' \<or> c = rune_of CHR ''-'' then cs else s)"

definition numeric :: "gostring \<Rightarrow> bool" where
  "numeric s = decimal (strip_sign s)"

definition signed_value :: "gostring \<Rightarrow> int" where
  "signed_value s = (case s of [] \<Rightarrow> 0
     | c # cs \<Rightarrow> if c = rune_of CHR ''-'' then - int (dec_from 0 cs)
                else int (dec_from 0 (strip_sign s)))"

text \<open>The values of a signed 64-bit integer.\<close>

definition in_int64 :: "int \<Rightarrow> bool" where
  "in_int64 i = (- (2 ^ 63) \<le> i \<and> i < 2 ^ 63)"

section \<open>Inputs used in the examples\<close>

text \<open>Range tables with nothing beyond Latin-1, for examples whose text is ASCII.\<close>

definition latin1_tables :: range_tables where
  "latin1_tables = \<lparr>Letter = (\<lambda>r. False), Digit = (\<lambda>r. False)\<rparr>"

definition blank_server :: Server where
  "blank_server = \<lparr>Logger = None, Name = [], ControlURL = [], StateDir = [], Debug = False,
     tailnet = None, initOnce = False\<rparr>"

text \<open>
  Peers as in the specification's examples: two registered exporters, a peer without the
  prefix, a registered name without a node segment, and a registered peer without an
  address; an overlay that answers with a given peer list; and the endpoints expected.
\<close>

definition peer_host1 :: PeerStatus where
  "peer_host1 = \<lparr>PeerID = str ''n1'', HostName = str ''tailmon/node-exporter/host1'',
     DNSName = str ''tailmon-node-exporter-host1.ts.example.com'',
     TailscaleIPs = [Addr4 0x64400001, Addr6 0xfd7a0123444400000000000000000007 []]\<rparr>"

definition peer_host2 :: PeerStatus where
  "peer_host2 = \<lparr>PeerID = str ''n2'', HostName = str ''tailmon/postgres-exporter/host2'',
     DNSName = str ''tailmon-postgres-exporter-host2.ts.example.com'',
     TailscaleIPs = [Addr4 0x64400002]\<rparr>"

definition peer_other :: PeerStatus where
  "peer_other = \<lparr>PeerID = str ''n3'', HostName = str ''other-service'',
     DNSName = str ''other-service.ts.example.com'', TailscaleIPs = [Addr4 0x64400003]\<rparr>"

definition peer_custom :: PeerStatus where
  "peer_custom = \<lparr>PeerID = str ''n4'', HostName = str ''tailmon/custom-exporter'',
     DNSName = str ''tailmon-custom-exporter.ts.example.com'', TailscaleIPs = [Addr4 0x64400004]\<rparr>"

definition peer_noaddr :: PeerStatus where
  "peer_noaddr = \<lparr>PeerID = str ''n5'', HostName = str ''tailmon/node-exporter/host5'',
     DNSName = str ''tailmon-node-exporter-host5.ts.example.com'', TailscaleIPs = []\<rparr>"

definition overlay_with :: "PeerStatus list \<Rightarrow> overlay" where
  "overlay_with ps = \<lparr>LocalClient = None,
     Status_answer = Inr \<lparr>BackendState = str ''Running'', AuthURL = [], Health = [],
        SelfIPs = [Addr4 0x64400009], Self = peer_other, Peer = ps\<rparr>\<rparr>"

definition endpoint1 :: Endpoint where
  "endpoint1 = \<lparr>ip = Addr4 0x64400001, Targets = [str ''100.64.0.1:80''],
      Labels = [(str ''__meta_tailmon_node_name'', str ''host1''),
                (str ''__meta_tailmon_exporter_name'', str ''node-exporter''),
                (str ''__meta_tailscale_dns_name'', str ''tailmon-node-exporter-host1.ts.example.com'')]\<rparr>"

definition endpoint2 :: Endpoint where
  "endpoint2 = \<lparr>ip = Addr4 0x64400002, Targets = [str ''100.64.0.2:80''],
      Labels = [(str ''__meta_tailmon_node_name'', str ''host2''),
                (str ''__meta_tailmon_exporter_name'', str ''postgres-exporter''),
                (str ''__meta_tailscale_dns_name'', str ''tailmon-postgres-exporter-host2.ts.example.com'')]\<rparr>"

definition endpoint_custom_exporter :: Endpoint where
  "endpoint_custom_exporter = \<lparr>ip = Addr4 0x64400004, Targets = [str ''100.64.0.4:80''],
      Labels = [(str ''__meta_tailmon_node_name'', str ''unknown''),
                (str ''__meta_tailmon_exporter_name'', str ''tailmon/custom-exporter''),
                (str ''__meta_tailscale_dns_name'', str ''tailmon-custom-exporter.ts.example.com'')]\<rparr>"

text \<open>Requests to the proxy filter, and answers to the status query.\<close>

definition request_metrics :: Request where
  "request_metrics = \<lparr>URL_Path = str ''/metrics''\<rparr>"

definition request_root :: Request where
  "request_root = \<lparr>URL_Path = str ''/''\<rparr>"

definition status_needs_auth :: Status where
  "status_needs_auth = \<lparr>BackendState = str ''NeedsLogin'',
     AuthURL = str ''https://login.example.com/a/1234'', Health = [], SelfIPs = [],
     Self = \<lparr>PeerID = [], HostName = str ''tailmon/node-exporter/host1'', DNSName = [],
              TailscaleIPs = []\<rparr>,
     Peer = []\<rparr>"

definition status_running :: Status where
  "status_running = \<lparr>BackendState = str ''Running'', AuthURL = [], Health = [],
     SelfIPs = [Addr4 0x64400001],
     Self = \<lparr>PeerID = str ''n1'', HostName = str ''tailmon/node-exporter/host1'',
              DNSName = str ''tailmon-node-exporter-host1.ts.example.com'',
              TailscaleIPs = [Addr4 0x64400001]\<rparr>,
     Peer = []\<rparr>"

section \<open>Sanitisation\<close>

lemma underscore_not_kept:
  "\<not> IsLetter T (rune_of CHR ''_'') \<and> \<not> IsDigit T (rune_of CHR ''_'')
   \<and> rune_of CHR ''_'' \<noteq> rune_of CHR ''-''"
  by (simp add: IsLetter_def IsDigit_def MaxLatin1_def latin1_letter_def rune_of_def)

lemma sanitize_rune_idem: "sanitize_rune T (sanitize_rune T r) = sanitize_rune T r"
  using underscore_not_kept [of T] by (simp add: sanitize_rune_def)

lemma sanitize_rune_cases:
  "sanitize_rune T r = r \<and> (IsLetter T r \<or> IsDigit T r \<or> r = rune_of CHR ''-'')
   \<or> sanitize_rune T r = rune_of CHR ''_''"
  by (simp add: sanitize_rune_def)

lemma sanitize_kept_set:
  assumes "c \<in> set (sanitize T x)"
  shows "IsLetter T c \<or> IsDigit T c \<or> c = rune_of CHR ''-'' \<or> c = rune_of CHR ''_''"
proof -
  from assms obtain r where "c = sanitize_rune T r"
    by (auto simp: sanitize_def strings_Map_def)
  with sanitize_rune_cases [of T r] show ?thesis by metis
qed

lemma sanitize_fixed:
  "(\<And>c. c \<in> set y \<Longrightarrow>
      IsLetter T c \<or> IsDigit T c \<or> c = rune_of CHR ''-'' \<or> c = rune_of CHR ''_'')
    \<Longrightarrow> sanitize T y = y"
  unfolding sanitize_def strings_Map_def
  by (induction y) (auto simp: sanitize_rune_def)

text \<open>
  Claim C2, as the code has it. Sanitising twice is sanitising once; a text made of letters,
  digits, hyphens and underscores only is left as it is; and every character of a sanitised
  text is a letter, a digit, a hyphen or the underscore that replaced everything else.
\<close>

theorem sanitize_idempotent:
  "sanitize T (sanitize T x) = sanitize T x
   \<and> ((\<forall>c\<in>set y. IsLetter T c \<or> IsDigit T c \<or> c = rune_of CHR ''-'' \<or> c = rune_of CHR ''_'')
        \<longrightarrow> sanitize T y = y)
   \<and> (\<forall>c\<in>set (sanitize T x).
        IsLetter T c \<or> IsDigit T c \<or> c = rune_of CHR ''-'' \<or> c = rune_of CHR ''_'')"
proof (intro conjI impI ballI)
  show "sanitize T (sanitize T x) = sanitize T x"
    by (simp add: sanitize_def strings_Map_def sanitize_rune_idem)
next
  assume "\<forall>c\<in>set y. IsLetter T c \<or> IsDigit T c \<or> c = rune_of CHR ''-'' \<or> c = rune_of CHR ''_''"
  then show "sanitize T y = y" by (intro sanitize_fixed) blast
next
  fix c assume "c \<in> set (sanitize T x)"
  then show "IsLetter T c \<or> IsDigit T c \<or> c = rune_of CHR ''-'' \<or> c = rune_of CHR ''_''"
    by (rule sanitize_kept_set)
qed

theorem sanitize_idempotent_witness:
  "sanitize latin1_tables (sanitize latin1_tables (str ''tailmon/node-exporter/host 1''))
     = sanitize latin1_tables (str ''tailmon/node-exporter/host 1'')
   \<and> sanitize latin1_tables (str ''tailmon_node-exporter_host_1'')
     = str ''tailmon_node-exporter_host_1''"
proof -
  have "\<forall>c\<in>set (str ''tailmon_node-exporter_host_1'').
          IsLetter latin1_tables c \<or> IsDigit latin1_tables c
          \<or> c = rune_of CHR ''-'' \<or> c = rune_of CHR ''_''"
    by (simp add: IsLetter_def IsDigit_def MaxLatin1_def latin1_letter_def rune_of_def str_def)
  with sanitize_idempotent [of latin1_tables "str ''tailmon/node-exporter/host 1''"
      "str ''tailmon_node-exporter_host_1''"]
  show ?thesis by blast
qed

text \<open>
  The claim as the specification words it fails: a character that is not a letter, a digit
  or a hyphen becomes an underscore, which is none of the three.
\<close>

theorem sanitize_underscore_counterexample:
  "\<forall>T. sanitize T (str ''a/b'') = str ''a_b''
     \<and> (\<exists>c\<in>set (sanitize T (str ''a/b'')).
           \<not> IsLetter T c \<and> \<not> IsDigit T c \<and> c \<noteq> rune_of CHR ''-'')"
  by (simp add: sanitize_def strings_Map_def sanitize_rune_def IsLetter_def IsDigit_def
        MaxLatin1_def latin1_letter_def rune_of_def str_def)

section \<open>Initialisation\<close>

lemma init_defaults_Name:
  "Name (init_defaults s) = (if Name s = [] then str ''unknown'' else Name s)"
  by (simp add: init_defaults_def Let_def)

lemma init_defaults_StateDir:
  "StateDir (init_defaults s) = (if StateDir s = [] then str ''.'' else StateDir s)"
  by (simp add: init_defaults_def Let_def)

lemma init_Inr:
  assumes "init T mkdir s = Inr s'"
  shows "s' = (init_defaults s)\<lparr>tailnet := Some \<lparr>Dir = init_dir T (init_defaults s),
     Hostname = Name (init_defaults s), tsnet_ControlURL = ControlURL (init_defaults s),
     Logf = init_logf (init_defaults s)\<rparr>\<rparr>"
  using assms unfolding init_def Let_def
  by (simp split: option.splits fs_error.splits)

text \<open>
  The initialisation returns unless creating the state directory fails with an error other
  than "exists".
\<close>

lemma init_succeeds_iff:
  "(\<exists>s'. init T mkdir s = Inr s') \<longleftrightarrow> mkdir (init_dir T (init_defaults s)) \<noteq> Some ErrOther"
  unfolding init_def Let_def
  by (simp split: option.splits fs_error.splits)

text \<open>
  Claim C10. When the initialisation returns, an empty \<open>Name\<close> has become \<open>unknown\<close> and an
  empty \<open>StateDir\<close> has become \<open>.\<close> (other values are kept), both fields are non-empty, and
  the overlay handle it built has the name as its hostname and
  \<open>StateDir/data-sanitize(Name)\<close> as its state directory.
\<close>

theorem init_fields:
  assumes "init T mkdir s = Inr s'"
  shows "Name s' = (if Name s = [] then str ''unknown'' else Name s)
       \<and> StateDir s' = (if StateDir s = [] then str ''.'' else StateDir s)
       \<and> Name s' \<noteq> [] \<and> StateDir s' \<noteq> []
       \<and> (\<exists>t. tailnet s' = Some t \<and> Hostname t = Name s'
              \<and> Dir t = StateDir s' @ str ''/data-'' @ sanitize T (Name s'))"
proof -
  let ?d = "init_defaults s"
  have eq: "s' = ?d\<lparr>tailnet := Some \<lparr>Dir = init_dir T ?d, Hostname = Name ?d,
     tsnet_ControlURL = ControlURL ?d, Logf = init_logf ?d\<rparr>\<rparr>"
    by (rule init_Inr [OF assms])
  have n: "Name s' = Name ?d" by (subst eq) simp
  have d: "StateDir s' = StateDir ?d" by (subst eq) simp
  have t: "tailnet s' = Some \<lparr>Dir = init_dir T ?d, Hostname = Name ?d,
     tsnet_ControlURL = ControlURL ?d, Logf = init_logf ?d\<rparr>" by (subst eq) simp
  have ne: "str ''unknown'' \<noteq> []" "str ''.'' \<noteq> []" by (simp_all add: str_def)
  show ?thesis
    using ne by (simp add: n d t init_defaults_Name init_defaults_StateDir init_dir_def)
qed

lemma init_blank:
  "init latin1_tables (\<lambda>d. None) blank_server =
     Inr \<lparr>Logger = Some NewNop, Name = str ''unknown'', ControlURL = [], StateDir = str ''.'',
          Debug = False,
          tailnet = Some \<lparr>Dir = str ''./data-unknown'', Hostname = str ''unknown'',
                           tsnet_ControlURL = [], Logf = Discard\<rparr>,
          initOnce = False\<rparr>"
  by (simp add: init_def init_defaults_def init_logf_def init_dir_def blank_server_def Let_def
      NewNop_def sanitize_def strings_Map_def latin1_tables_def
      sanitize_rune_def IsLetter_def IsDigit_def MaxLatin1_def latin1_letter_def rune_of_def str_def)

theorem init_fields_witness:
  "\<exists>s'. init latin1_tables (\<lambda>d. None) blank_server = Inr s'
     \<and> Name s' = str ''unknown'' \<and> StateDir s' = str ''.''
     \<and> map_option Dir (tailnet s') = Some (str ''./data-unknown'')
     \<and> map_option Hostname (tailnet s') = Some (str ''unknown'')"
  using init_fields [OF init_blank] init_blank
  by (simp add: blank_server_def)

text \<open>
  The guard of the initialisation: once it has run, running it again changes nothing and
  does not touch the file system.
\<close>

theorem initOnce_Do_once:
  assumes "initOnce_Do T mkdir s = Inr s'"
  shows "initOnce s' \<and> initOnce_Do T mkdir' s' = Inr s'"
proof -
  have "initOnce s'"
    using assms by (auto simp: initOnce_Do_def split: if_splits sum.splits)
  then show ?thesis by (simp add: initOnce_Do_def)
qed

theorem initOnce_Do_once_witness:
  "\<exists>s'. initOnce_Do latin1_tables (\<lambda>d. None) blank_server = Inr s'
     \<and> initOnce_Do latin1_tables (\<lambda>d. Some ErrOther) s' = Inr s'"
proof -
  have "\<exists>s'. initOnce_Do latin1_tables (\<lambda>d. None) blank_server = Inr s'"
    by (simp add: initOnce_Do_def init_blank) 
  then obtain s' where a: "initOnce_Do latin1_tables (\<lambda>d. None) blank_server = Inr s'" ..
  from initOnce_Do_once [OF a, of "\<lambda>d. Some ErrOther"] a show ?thesis by blast
qed

section \<open>The registration parser\<close>

lemma Cut_eq:
  "Cut s sep = (takeWhile (\<lambda>c. c \<noteq> sep) s, tl (dropWhile (\<lambda>c. c \<noteq> sep) s), sep \<in> set s)"
  by (induction s) simp_all

lemma Cut_append:
  "sep \<notin> set b \<Longrightarrow> Cut (b @ sep # a) sep = (b, a, True)"
  by (induction b) simp_all

lemma Cut_absent:
  "sep \<notin> set s \<Longrightarrow> Cut s sep = (s, [], False)"
  by (induction s) simp_all

lemma Cut_found:
  assumes "Cut s sep = (b, a, True)"
  shows "s = b @ sep # a \<and> sep \<notin> set b"
proof -
  from assms have b: "b = takeWhile (\<lambda>c. c \<noteq> sep) s"
    and a: "a = tl (dropWhile (\<lambda>c. c \<noteq> sep) s)" and m: "sep \<in> set s"
    by (simp_all add: Cut_eq)
  from m have "dropWhile (\<lambda>c. c \<noteq> sep) s \<noteq> []" by (simp add: dropWhile_eq_Nil_conv) 
  moreover have "hd (dropWhile (\<lambda>c. c \<noteq> sep) s) = sep"
    using hd_dropWhile [OF calculation] by simp
  ultimately have "dropWhile (\<lambda>c. c \<noteq> sep) s = sep # a"
    unfolding a by (metis list.collapse)
  then have "s = b @ sep # a" unfolding b by (metis takeWhile_dropWhile_id)
  moreover have "sep \<notin> set b" unfolding b by (auto dest: set_takeWhileD)
  ultimately show ?thesis by simp
qed

lemma dec_from_ge: "n \<le> dec_from n ds"
proof (induction ds arbitrary: n)
  case Nil show ?case by simp
next
  case (Cons c cs)
  have "n \<le> n * 10 + (c - rune_of CHR ''0'')" by simp
  also have "\<dots> \<le> dec_from (n * 10 + (c - rune_of CHR ''0'')) cs" by (rule Cons.IH)
  finally show ?case by simp
qed

lemma ParseUint_loop_nondigit:
  "\<not> list_all is_digit ds \<Longrightarrow> snd (ParseUint_loop n ds) \<noteq> None"
proof (induction ds arbitrary: n)
  case Nil then show ?case by simp
next
  case (Cons c cs)
  show ?case
  proof (cases "is_digit c")
    case False
    then show ?thesis by simp
  next
    case True
    with Cons.prems have "\<not> list_all is_digit cs" by simp
    then have "\<And>m. snd (ParseUint_loop m cs) \<noteq> None" by (rule Cons.IH)
    with True show ?thesis by (simp add: Let_def)
  qed
qed

lemma ParseUint_loop_digits:
  assumes "list_all is_digit ds" "n \<le> maxUint64"
  shows "ParseUint_loop n ds =
     (if dec_from n ds \<le> maxUint64 then (dec_from n ds, None) else (maxUint64, Some ErrRange))"
  using assms
proof (induction ds arbitrary: n)
  case Nil then show ?case by simp
next
  case (Cons c cs)
  let ?d = "c - rune_of CHR ''0''"
  have dig: "is_digit c" and rest: "list_all is_digit cs"
    using Cons.prems(1) by simp_all
  have d9: "?d \<le> 9" using dig by (simp add: rune_of_def is_digit_def) arith
  have ge: "n * 10 + ?d \<le> dec_from n (c # cs)" using dec_from_ge [of "n * 10 + ?d" cs] by simp
  show ?case
  proof (cases "n \<ge> uint_cutoff")
    case True
    then have "n * 10 + ?d > maxUint64" by (simp add: uint_cutoff_def maxUint64_def)
    with ge have "dec_from n (c # cs) > maxUint64" by linarith
    with True dig show ?thesis by (simp add: Let_def)
  next
    case False
    then have lt: "n * 10 < 2 ^ 64" by (simp add: uint_cutoff_def maxUint64_def)
    then have n': "(n * 10) mod 2 ^ 64 = n * 10" by simp
    show ?thesis
    proof (cases "n * 10 + ?d \<le> maxUint64")
      case True
      then have n1: "(n * 10 + ?d) mod 2 ^ 64 = n * 10 + ?d" by (simp add: maxUint64_def)
      from True n1 n' False dig Cons.IH [OF rest True] show ?thesis
        by (simp add: Let_def)
    next
      case over: False
      then have big: "n * 10 + ?d \<ge> 2 ^ 64" by (simp add: maxUint64_def)
      have "n * 10 + ?d < 2 ^ 64 + 2 ^ 64" using lt d9 by simp
      then have "(n * 10 + ?d) mod 2 ^ 64 = n * 10 + ?d - 2 ^ 64"
        using big by (simp add: mod_if le_mod_geq)
      moreover have "n * 10 + ?d - 2 ^ 64 < n * 10" using big d9 by simp
      ultimately have wrap: "(n * 10 + ?d) mod 2 ^ 64 < n * 10" by simp
      from over ge have "dec_from n (c # cs) > maxUint64" by linarith
      with wrap n' False dig show ?thesis by (simp add: Let_def)
    qed
  qed
qed

lemma ParseUint_loop_err:
  "ParseUint_loop n ds = (u, Some k) \<Longrightarrow>
     (u = maxUint64 \<and> k = ErrRange) \<or> (u = 0 \<and> k = ErrSyntax)"
proof (induction ds arbitrary: n)
  case Nil then show ?case by simp
next
  case (Cons c cs)
  let ?n' = "(n * 10) mod 2 ^ 64"
  let ?n1 = "(?n' + (c - rune_of CHR ''0'')) mod 2 ^ 64"
  let ?ov = "?n1 < ?n' \<or> ?n1 > maxUint64"
  have unf: "ParseUint_loop n (c # cs) =
      (if is_digit c then
         (if n \<ge> uint_cutoff then (maxUint64, Some ErrRange)
          else if ?ov then (maxUint64, Some ErrRange) else ParseUint_loop ?n1 cs)
       else (0, Some ErrSyntax))"
    by (simp only: ParseUint_loop.simps Let_def)
  show ?case
  proof (cases "is_digit c \<and> \<not> n \<ge> uint_cutoff \<and> \<not> ?ov")
    case True
    with unf have "ParseUint_loop n (c # cs) = ParseUint_loop ?n1 cs" by presburger
    with Cons.prems have "ParseUint_loop ?n1 cs = (u, Some k)" by simp
    then show ?thesis by (rule Cons.IH)
  next
    case False
    with unf have "ParseUint_loop n (c # cs) = (maxUint64, Some ErrRange)
        \<or> ParseUint_loop n (c # cs) = (0, Some ErrSyntax)" by presburger
    with Cons.prems show ?thesis by auto
  qed
qed

lemma ParseUint_decimal:
  "decimal s \<Longrightarrow> ParseUint s =
     (if dec_from 0 s \<le> maxUint64 then (dec_from 0 s, None) else (maxUint64, Some ErrRange))"
  unfolding ParseUint_def decimal_def
  by (simp add: ParseUint_loop_digits)

lemma ParseUint_not_decimal:
  assumes "\<not> decimal s"
  shows "ParseUint s = (0, Some ErrSyntax) \<or> ParseUint s = (maxUint64, Some ErrRange)"
proof (cases "s = []")
  case True then show ?thesis by (simp add: ParseUint_def)
next
  case False
  with assms have nd: "\<not> list_all is_digit s" by (simp add: decimal_def)
  obtain u e where r: "ParseUint_loop 0 s = (u, e)" by (cases "ParseUint_loop 0 s")
  from ParseUint_loop_nondigit [OF nd, of 0] r obtain k where e: "e = Some k" by auto
  from ParseUint_loop_err [of 0 s u k] r e False show ?thesis
    by (auto simp: ParseUint_def)
qed


lemma ParseInt_numeric:
  assumes "numeric s" "in_int64 (signed_value s)"
  shows "ParseInt s = Inr (signed_value s)"
proof (cases s)
  case Nil
  with assms show ?thesis by (simp add: numeric_def strip_sign_def decimal_def)
next
  case (Cons c cs)
  let ?t = "if c = rune_of CHR ''+'' \<or> c = rune_of CHR ''-'' then cs else s"
  have st: "strip_sign s = ?t" by (simp add: strip_sign_def Cons)
  from assms(1) have dec: "decimal ?t" by (simp add: numeric_def st)
  have sv: "signed_value s = (if c = rune_of CHR ''-'' then - int (dec_from 0 ?t) else int (dec_from 0 ?t))"
    by (simp add: signed_value_def Cons strip_sign_def)
  have le: "dec_from 0 ?t \<le> maxUint64"
    using assms(2) unfolding sv in_int64_def maxUint64_def by (simp split: if_splits)
  have pu: "ParseUint ?t = (dec_from 0 ?t, None)"
    using ParseUint_decimal [OF dec] le by simp
  have rng: "if c = rune_of CHR ''-'' then dec_from 0 ?t \<le> int_cutoff else dec_from 0 ?t < int_cutoff"
    using assms(2) unfolding sv in_int64_def int_cutoff_def by (simp split: if_splits)
  show ?thesis
    unfolding ParseInt_def Cons list.case Let_def
    using pu rng sv Cons by (simp split: if_splits)
qed

lemma ParseInt_fails:
  assumes "\<not> (numeric s \<and> in_int64 (signed_value s))"
  shows "\<exists>k. ParseInt s = Inl (NumError (str ''ParseInt'') s k)"
proof (cases s)
  case Nil
  then show ?thesis by (simp add: ParseInt_def)
next
  case (Cons c cs)
  let ?t = "if c = rune_of CHR ''+'' \<or> c = rune_of CHR ''-'' then cs else s"
  have st: "strip_sign s = ?t" by (simp add: strip_sign_def Cons)
  have sv: "signed_value s = (if c = rune_of CHR ''-'' then - int (dec_from 0 ?t) else int (dec_from 0 ?t))"
    by (simp add: signed_value_def Cons strip_sign_def)
  have PI: "ParseInt s = (case ParseUint ?t of
               (un, Some ErrSyntax) \<Rightarrow> Inl (NumError (str ''ParseInt'') s ErrSyntax)
             | (un, _) \<Rightarrow>
                 if \<not> c = rune_of CHR ''-'' \<and> un \<ge> int_cutoff then Inl (NumError (str ''ParseInt'') s ErrRange)
                 else if c = rune_of CHR ''-'' \<and> un > int_cutoff then Inl (NumError (str ''ParseInt'') s ErrRange)
                 else Inr (if c = rune_of CHR ''-'' then - int un else int un))"
    unfolding ParseInt_def Cons list.case Let_def by (simp add: Cons)
  have big: "maxUint64 > int_cutoff" by (simp add: maxUint64_def int_cutoff_def)
  show ?thesis
  proof (cases "decimal ?t")
    case False
    from ParseUint_not_decimal [OF False] big show ?thesis
      unfolding PI by auto
  next
    case True
    show ?thesis
    proof (cases "dec_from 0 ?t \<le> maxUint64")
      case False
      with ParseUint_decimal [OF True] have "ParseUint ?t = (maxUint64, Some ErrRange)" by simp
      with big show ?thesis unfolding PI by auto
    next
      case le: True
      with ParseUint_decimal [OF True] have pu: "ParseUint ?t = (dec_from 0 ?t, None)" by simp
      from True assms st have "\<not> in_int64 (signed_value s)" by (simp add: numeric_def)
      then have "if c = rune_of CHR ''-'' then dec_from 0 ?t > int_cutoff else dec_from 0 ?t \<ge> int_cutoff"
        unfolding sv in_int64_def int_cutoff_def by (simp split: if_splits)
      then show ?thesis unfolding PI pu by (simp split: if_splits)
    qed
  qed
qed

lemma ParseInt_ok_iff:
  "(\<exists>p. ParseInt s = Inr p) \<longleftrightarrow> numeric s \<and> in_int64 (signed_value s)"
  using ParseInt_fails [of s] ParseInt_numeric [of s] by (metis Inl_Inr_False)

lemma newExporter_Inr:
  assumes "colon = rune_of CHR '':''" "colon \<notin> set nm" "numeric portStr" "in_int64 (signed_value portStr)"
  shows "newExporter h (nm @ colon # portStr) =
     Inr \<lparr>name = nm, port = signed_value portStr,
          hostname = (case h of None \<Rightarrow> str ''unknown'' | Some hn \<Rightarrow> hn)\<rparr>"
  using assms Cut_append [of colon nm portStr] ParseInt_numeric [of portStr]
  by (simp add: newExporter_def)

lemma newExporter_no_colon:
  assumes "rune_of CHR '':'' \<notin> set v"
  shows "newExporter h v = Inl (ErrorsNew (str ''use name-exporter:port format''))"
  using Cut_absent [OF assms] by (simp add: newExporter_def)

lemma newExporter_bad_port:
  assumes "rune_of CHR '':'' \<notin> set nm" "\<not> (numeric portStr \<and> in_int64 (signed_value portStr))"
  shows "\<exists>k. newExporter h (nm @ rune_of CHR '':'' # portStr) = Inl (NumError (str ''ParseInt'') portStr k)"
  using Cut_append [OF assms(1), of portStr] ParseInt_fails [OF assms(2)]
  by (auto simp: newExporter_def)

lemma split_at_colon:
  "rune_of CHR '':'' \<in> set v \<Longrightarrow>
     \<exists>nm portStr. v = nm @ rune_of CHR '':'' # portStr \<and> rune_of CHR '':'' \<notin> set nm"
  by (metis split_list_first)

lemma newExporter_Inr_shape:
  assumes "newExporter h v = Inr ep"
  shows "\<exists>portStr. v = name ep @ rune_of CHR '':'' # portStr \<and> rune_of CHR '':'' \<notin> set (name ep)
      \<and> numeric portStr \<and> in_int64 (signed_value portStr) \<and> port ep = signed_value portStr
      \<and> hostname ep = (case h of None \<Rightarrow> str ''unknown'' | Some hn \<Rightarrow> hn)"
proof (cases "rune_of CHR '':'' \<in> set v")
  case False
  with newExporter_no_colon [of v h] assms show ?thesis by simp
next
  case True
  then obtain nm portStr where v: "v = nm @ rune_of CHR '':'' # portStr"
    and nm: "rune_of CHR '':'' \<notin> set nm" using split_at_colon by blast
  show ?thesis
  proof (cases "numeric portStr \<and> in_int64 (signed_value portStr)")
    case False
    from newExporter_bad_port [OF nm False, of h] assms v show ?thesis by auto
  next
    case True
    with newExporter_Inr [OF refl nm, of portStr h] assms v
    have "ep = \<lparr>name = nm, port = signed_value portStr,
          hostname = (case h of None \<Rightarrow> str ''unknown'' | Some hn \<Rightarrow> hn)\<rparr>" by simp
    with v nm True show ?thesis by simp
  qed
qed

text \<open>
  Claim C3, as the code has it. The parser returns a registration exactly when the input
  has a \<open>:\<close> and the text after the first \<open>:\<close> is a number: an optional sign and a non-empty
  run of decimal digits whose value fits a signed 64-bit integer. The name before the \<open>:\<close>
  may be empty and the port is not checked against 1..65535. An input without \<open>:\<close> fails
  with the fixed error \<open>use name-exporter:port format\<close>; a port that is not a number fails
  with the integer parser's error, which carries the port text.
\<close>

theorem newExporter_succeeds_iff:
  "((\<exists>ep. newExporter h v = Inr ep) \<longleftrightarrow>
      (\<exists>nm portStr. v = nm @ rune_of CHR '':'' # portStr \<and> rune_of CHR '':'' \<notin> set nm
          \<and> numeric portStr \<and> in_int64 (signed_value portStr)))
   \<and> (rune_of CHR '':'' \<notin> set v \<longrightarrow>
         newExporter h v = Inl (ErrorsNew (str ''use name-exporter:port format'')))
   \<and> (rune_of CHR '':'' \<notin> set nm' \<and> \<not> numeric p' \<longrightarrow>
         (\<exists>k. newExporter h (nm' @ rune_of CHR '':'' # p') = Inl (NumError (str ''ParseInt'') p' k)))"
proof (intro conjI impI)
  show "(\<exists>ep. newExporter h v = Inr ep) \<longleftrightarrow>
      (\<exists>nm portStr. v = nm @ rune_of CHR '':'' # portStr \<and> rune_of CHR '':'' \<notin> set nm
          \<and> numeric portStr \<and> in_int64 (signed_value portStr))"
  proof
    assume "\<exists>ep. newExporter h v = Inr ep"
    then obtain ep where "newExporter h v = Inr ep" ..
    from newExporter_Inr_shape [OF this] show "\<exists>nm portStr. v = nm @ rune_of CHR '':'' # portStr
       \<and> rune_of CHR '':'' \<notin> set nm \<and> numeric portStr \<and> in_int64 (signed_value portStr)"
      by blast
  next
    assume "\<exists>nm portStr. v = nm @ rune_of CHR '':'' # portStr \<and> rune_of CHR '':'' \<notin> set nm
          \<and> numeric portStr \<and> in_int64 (signed_value portStr)"
    then obtain nm portStr where "v = nm @ rune_of CHR '':'' # portStr" "rune_of CHR '':'' \<notin> set nm"
      "numeric portStr" "in_int64 (signed_value portStr)" by blast
    with newExporter_Inr [OF refl, of nm portStr h] show "\<exists>ep. newExporter h v = Inr ep" by simp
  qed
next
  assume "rune_of CHR '':'' \<notin> set v"
  then show "newExporter h v = Inl (ErrorsNew (str ''use name-exporter:port format''))"
    by (rule newExporter_no_colon)
next
  assume "rune_of CHR '':'' \<notin> set nm' \<and> \<not> numeric p'"
  then show "\<exists>k. newExporter h (nm' @ rune_of CHR '':'' # p') = Inl (NumError (str ''ParseInt'') p' k)"
    using newExporter_bad_port [of nm' p' h] by blast
qed

lemma example_9100:
  "str ''node-exporter:9100'' = str ''node-exporter'' @ rune_of CHR '':'' # str ''9100''"
  "rune_of CHR '':'' \<notin> set (str ''node-exporter'')"
  "numeric (str ''9100'')" "signed_value (str ''9100'') = 9100"
  by (simp_all add: str_def rune_of_def numeric_def strip_sign_def decimal_def is_digit_def
      signed_value_def)

lemma example_91x: "\<not> numeric (str ''91x'')"
  by (simp add: str_def rune_of_def numeric_def strip_sign_def decimal_def is_digit_def)

theorem newExporter_succeeds_iff_witness:
  "(\<exists>ep. newExporter None (str ''node-exporter:9100'') = Inr ep)
   \<and> newExporter None (str ''node-exporter'') = Inl (ErrorsNew (str ''use name-exporter:port format''))
   \<and> (\<exists>k. newExporter None (str ''node-exporter'' @ rune_of CHR '':'' # str ''91x'')
            = Inl (NumError (str ''ParseInt'') (str ''91x'') k))"
proof -
  have r: "in_int64 (signed_value (str ''9100''))"
    by (simp add: example_9100 in_int64_def)
  have c: "rune_of CHR '':'' \<notin> set (str ''node-exporter'')" by (rule example_9100)
  from newExporter_succeeds_iff [of None "str ''node-exporter:9100''" "str ''node-exporter''" "str ''91x''"]
    newExporter_succeeds_iff [of None "str ''node-exporter''" "str ''node-exporter''" "str ''91x''"]
    example_9100 example_91x r c
  show ?thesis by blast
qed

text \<open>
  The claim as the specification words it fails: an empty name, the port 0 and a negative
  port are all accepted.
\<close>

theorem newExporter_unvalidated_counterexample:
  "\<forall>h. newExporter h (str '':80'') =
          Inr \<lparr>name = [], port = 80, hostname = (case h of None \<Rightarrow> str ''unknown'' | Some hn \<Rightarrow> hn)\<rparr>
     \<and> newExporter h (str ''a:0'') =
          Inr \<lparr>name = str ''a'', port = 0, hostname = (case h of None \<Rightarrow> str ''unknown'' | Some hn \<Rightarrow> hn)\<rparr>
     \<and> newExporter h (str ''a:-70000'') =
          Inr \<lparr>name = str ''a'', port = - 70000, hostname = (case h of None \<Rightarrow> str ''unknown'' | Some hn \<Rightarrow> hn)\<rparr>"
  by (simp add: newExporter_def ParseInt_def ParseUint_def Let_def str_def rune_of_def is_digit_def
      uint_cutoff_def maxUint64_def int_cutoff_def)

text \<open>
  Claim C7. For a name without \<open>:\<close> and a port that is a number (every port 1..65535 written
  in decimal is one), parsing \<open>name:port\<close> returns a registration whose overlay hostname is
  \<open>tailmon/name/hostname\<close>, the hostname being \<open>unknown\<close> when the machine's cannot be
  resolved; every registration the parser returns has that hostname, built from the text
  before the first \<open>:\<close>; and parsing fails for an input without \<open>:\<close> and for a port that is
  not a number.
\<close>

theorem newExporter_node_name:
  "(rune_of CHR '':'' \<notin> set nm \<and> numeric portStr \<and> in_int64 (signed_value portStr) \<longrightarrow>
      (\<exists>ep. newExporter h (nm @ rune_of CHR '':'' # portStr) = Inr ep
         \<and> TailscaleNodeName ep =
             str ''tailmon/'' @ nm @ str ''/'' @ (case h of None \<Rightarrow> str ''unknown'' | Some hn \<Rightarrow> hn)))
   \<and> (newExporter h v = Inr e \<longrightarrow>
        (\<exists>p. v = name e @ rune_of CHR '':'' # p)
        \<and> TailscaleNodeName e =
             str ''tailmon/'' @ name e @ str ''/'' @ (case h of None \<Rightarrow> str ''unknown'' | Some hn \<Rightarrow> hn))
   \<and> (rune_of CHR '':'' \<notin> set v \<longrightarrow> (\<exists>err. newExporter h v = Inl err))
   \<and> (rune_of CHR '':'' \<notin> set nm' \<and> \<not> numeric p' \<longrightarrow>
        (\<exists>err. newExporter h (nm' @ rune_of CHR '':'' # p') = Inl err))"
proof (intro conjI impI)
  assume "rune_of CHR '':'' \<notin> set nm \<and> numeric portStr \<and> in_int64 (signed_value portStr)"
  then show "\<exists>ep. newExporter h (nm @ rune_of CHR '':'' # portStr) = Inr ep
         \<and> TailscaleNodeName ep =
             str ''tailmon/'' @ nm @ str ''/'' @ (case h of None \<Rightarrow> str ''unknown'' | Some hn \<Rightarrow> hn)"
    using newExporter_Inr [OF refl, of nm portStr h] by (simp add: TailscaleNodeName_def)
next
  assume a: "newExporter h v = Inr e"
  from newExporter_Inr_shape [OF a] show "\<exists>p. v = name e @ rune_of CHR '':'' # p" by blast
  from newExporter_Inr_shape [OF a] show "TailscaleNodeName e =
             str ''tailmon/'' @ name e @ str ''/'' @ (case h of None \<Rightarrow> str ''unknown'' | Some hn \<Rightarrow> hn)"
    by (auto simp: TailscaleNodeName_def)
next
  assume "rune_of CHR '':'' \<notin> set v"
  then show "\<exists>err. newExporter h v = Inl err" by (simp add: newExporter_no_colon)
next
  assume "rune_of CHR '':'' \<notin> set nm' \<and> \<not> numeric p'"
  then show "\<exists>err. newExporter h (nm' @ rune_of CHR '':'' # p') = Inl err"
    using newExporter_bad_port [of nm' p' h] by blast
qed

lemma example_9187:
  "rune_of CHR '':'' \<notin> set (str ''postgres-exporter'')"
  "numeric (str ''9187'')" "signed_value (str ''9187'') = 9187"
  "str ''postgres-exporter'' @ rune_of CHR '':'' # str ''9187'' = str ''postgres-exporter:9187''"
  "str ''tailmon/'' @ str ''postgres-exporter'' @ str ''/'' @ str ''host2'' = str ''tailmon/postgres-exporter/host2''"
  "str ''tailmon/'' @ str ''postgres-exporter'' @ str ''/'' @ str ''unknown'' = str ''tailmon/postgres-exporter/unknown''"
  by (simp_all add: str_def rune_of_def numeric_def strip_sign_def decimal_def is_digit_def
      signed_value_def)

lemma example_nonnumeric:
  "rune_of CHR '':'' \<notin> set (str ''postgres-exporter'')" "\<not> numeric (str ''http'')"
  by (simp_all add: str_def rune_of_def numeric_def strip_sign_def decimal_def is_digit_def)

theorem newExporter_node_name_witness:
  "(\<exists>ep. newExporter (Some (str ''host2'')) (str ''postgres-exporter:9187'') = Inr ep
        \<and> TailscaleNodeName ep = str ''tailmon/postgres-exporter/host2'')
   \<and> (\<exists>ep. newExporter None (str ''postgres-exporter:9187'') = Inr ep
        \<and> TailscaleNodeName ep = str ''tailmon/postgres-exporter/unknown'')
   \<and> (\<exists>err. newExporter None (str ''postgres-exporter'') = Inl err)
   \<and> (\<exists>err. newExporter None (str ''postgres-exporter'' @ rune_of CHR '':'' # str ''http'') = Inl err)"
proof -
  have r: "in_int64 (signed_value (str ''9187''))"
    by (simp add: example_9187 in_int64_def)
  from newExporter_node_name [of "str ''postgres-exporter''" "str ''9187''" "Some (str ''host2'')"]
    newExporter_node_name [of "str ''postgres-exporter''" "str ''9187''" None
       "str ''postgres-exporter''" _ "str ''postgres-exporter''" "str ''http''"]
    r example_9187 example_nonnumeric
  show ?thesis by simp
qed

section \<open>The enumerator\<close>

lemma string_less_iff: "string_less xs ys \<longleftrightarrow> xs < ys"
  by (induction xs ys rule: string_less.induct) simp_all

lemma Zone_not_Is6: "\<not> Is6 a \<Longrightarrow> Zone a = []"
  by (cases a) simp_all

lemma Is6_BitLen: "Is6 a \<longleftrightarrow> BitLen a = 128"
  by (cases a) simp_all

lemma Compare_key:
  "Compare a b = (if addr_key a < addr_key b then - 1 else if addr_key b < addr_key a then 1 else 0)"
proof (cases "Is6 a")
  case True
  then show ?thesis
    unfolding Compare_def addr_key_def string_less_iff by auto
next
  case False
  then have za: "Zone a = []" by (rule Zone_not_Is6)
  show ?thesis
  proof (cases "BitLen a = BitLen b")
    case True
    with False have "\<not> Is6 b" by (simp add: Is6_BitLen)
    then have "Zone b = []" by (rule Zone_not_Is6)
    with za False show ?thesis
      unfolding Compare_def addr_key_def by auto
  next
    case ne: False
    then show ?thesis
      unfolding Compare_def addr_key_def by auto
  qed
qed

lemma Less_key: "Less a b \<longleftrightarrow> addr_key a < addr_key b"
  unfolding Less_def Compare_key by simp

lemma Compare_le_key: "Compare a b \<le> 0 \<longleftrightarrow> addr_key a \<le> addr_key b"
  unfolding Compare_key by auto

lemma insert_stable_insort:
  "insert_stable (\<lambda>a b. f a < f b) x ys = insort_key f x ys"
  by (induction ys) (auto simp: not_less)

lemma SliceStable_sort_key:
  "SliceStable (\<lambda>a b. (f a :: 'k :: linorder) < f b) xs = sort_key f xs"
  unfolding SliceStable_def sort_key_def
  by (induction xs) (simp_all add: insert_stable_insort)

lemma SliceStable_Less:
  "SliceStable (\<lambda>a b. Less (ip a) (ip b)) xs = sort_key (\<lambda>e. addr_key (ip e)) xs"
  unfolding Less_key by (rule SliceStable_sort_key)

lemma endpoints_loop_elems:
  "slice_elems (endpoints_loop vs acc) =
     slice_elems acc @ map (\<lambda>v. peer_endpoint v (hd (TailscaleIPs v)))
        (filter (\<lambda>v. HasPrefix (HostName v) (str ''tailmon/'') \<and> TailscaleIPs v \<noteq> []) vs)"
proof (induction vs arbitrary: acc)
  case Nil show ?case by simp
next
  case (Cons v vs)
  show ?case
  proof (cases "HasPrefix (HostName v) tailmon_prefix")
    case False
    then show ?thesis using Cons.IH [of acc] by (simp add: tailmon_prefix_def)
  next
    case True
    show ?thesis
    proof (cases "TailscaleIPs v")
      case Nil
      with True show ?thesis using Cons.IH [of acc] by (simp add: tailmon_prefix_def)
    next
      case (Cons ip0 ips)
      have "slice_elems (append_slice acc (peer_endpoint v ip0)) = slice_elems acc @ [peer_endpoint v ip0]"
        by (simp add: append_slice_def slice_elems_def split: option.splits)
      with True Cons show ?thesis
        using Cons.IH [of "append_slice acc (peer_endpoint v ip0)"]
        by (simp add: tailmon_prefix_def)
    qed
  qed
qed

lemma endpoints_loop_nil:
  "endpoints_loop vs acc = None \<longleftrightarrow>
     acc = None \<and> filter (\<lambda>v. HasPrefix (HostName v) (str ''tailmon/'') \<and> TailscaleIPs v \<noteq> []) vs = []"
proof (induction vs arbitrary: acc)
  case Nil show ?case by simp
next
  case (Cons v vs)
  show ?case
  proof (cases "HasPrefix (HostName v) tailmon_prefix")
    case False
    then show ?thesis using Cons.IH [of acc] by (simp add: tailmon_prefix_def)
  next
    case True
    show ?thesis
    proof (cases "TailscaleIPs v")
      case Nil
      with True show ?thesis using Cons.IH [of acc] by (simp add: tailmon_prefix_def)
    next
      case (Cons ip0 ips)
      have "append_slice acc (peer_endpoint v ip0) \<noteq> None"
        by (simp add: append_slice_def split: option.splits)
      with True Cons show ?thesis
        using Cons.IH [of "append_slice acc (peer_endpoint v ip0)"]
        by (simp add: tailmon_prefix_def)
    qed
  qed
qed

lemma findTailmonEndpoints_ok:
  assumes "LocalClient tn = None" "Status_answer tn = Inr status"
  shows "findTailmonEndpoints tn =
     Inr (map_option (sort_key (\<lambda>e. addr_key (ip e))) (endpoints_loop (Peer status) None))"
proof -
  have "SliceStable (\<lambda>a b. Less (ip a) (ip b)) = sort_key (\<lambda>e :: Endpoint. addr_key (ip e))"
    by (rule ext) (rule SliceStable_Less)
  with assms show ?thesis by (simp add: findTailmonEndpoints_def)
qed

lemma slice_elems_map_option: "slice_elems (map_option f sl) = f (slice_elems sl)" if "f [] = []"
  using that by (cases sl) (simp_all add: slice_elems_def)

lemma findTailmonEndpoints_elems:
  assumes "LocalClient tn = None" "Status_answer tn = Inr status"
  shows "\<exists>r. findTailmonEndpoints tn = Inr r \<and>
     slice_elems r = sort_key (\<lambda>e. addr_key (ip e)) (slice_elems (endpoints_loop (Peer status) None))"
  using findTailmonEndpoints_ok [OF assms] by (simp add: slice_elems_map_option)

lemma peer_endpoint_fields:
  "ip (peer_endpoint v ip0) = ip0"
  "Targets (peer_endpoint v ip0) = [formatAddr ip0 80]"
  "map fst (Labels (peer_endpoint v ip0)) =
     [str ''__meta_tailmon_node_name'', str ''__meta_tailmon_exporter_name'', str ''__meta_tailscale_dns_name'']"
  "map_of (Labels (peer_endpoint v ip0)) (str ''__meta_tailscale_dns_name'') = Some (DNSName v)"
  by (simp_all add: peer_endpoint_def Let_def str_def split: prod.splits)

lemma itoa_80: "itoa 80 = str ''80''"
  by (simp add: itoa_def str_def rune_of_def)

lemma formatAddr_80:
  "formatAddr a 80 = (if Is4 a then String a @ str '':80'' else str ''['' @ String a @ str '']:80'')"
  by (simp add: formatAddr_def itoa_80) (simp add: str_def)

lemmas render_defs = formatAddr_def String_def string4_def itoa_def
  Is4In6_def addr_hi_def addr_lo_def string6_def v6u16_def zone_suffix_def

lemma endpoint_host1:
  "peer_endpoint peer_host1 (Addr4 0x64400001) =
     \<lparr>ip = Addr4 0x64400001, Targets = [str ''100.64.0.1:80''],
      Labels = [(str ''__meta_tailmon_node_name'', str ''host1''),
                (str ''__meta_tailmon_exporter_name'', str ''node-exporter''),
                (str ''__meta_tailscale_dns_name'', str ''tailmon-node-exporter-host1.ts.example.com'')]\<rparr>"
  by (simp add: peer_endpoint_def peer_host1_def tailmon_prefix_def TrimPrefix_def render_defs
      str_def rune_of_def)

lemma endpoint_custom:
  "peer_endpoint peer_custom (Addr4 0x64400004) =
     \<lparr>ip = Addr4 0x64400004, Targets = [str ''100.64.0.4:80''],
      Labels = [(str ''__meta_tailmon_node_name'', str ''unknown''),
                (str ''__meta_tailmon_exporter_name'', str ''tailmon/custom-exporter''),
                (str ''__meta_tailscale_dns_name'', str ''tailmon-custom-exporter.ts.example.com'')]\<rparr>"
  by (simp add: peer_endpoint_def peer_custom_def tailmon_prefix_def TrimPrefix_def render_defs
      str_def rune_of_def)

lemma key_examples:
  "addr_key (Addr4 0x64400001) < addr_key (Addr4 0x64400002)"
  "addr_key (Addr4 0x64400002) < addr_key (Addr6 0xfd7a0123444400000000000000000007 [])"
  by (simp_all add: addr_key_def addr_hi_def addr_lo_def)

lemma ipv6_example:
  "formatAddr (Addr6 0xfd7a0123444400000000000000000007 []) 80 = str ''[fd7a:123:4444::7]:80''"
  by (simp add: render_defs Let_def str_def rune_of_def upt_rec)

text \<open>
  Claim C5. When the overlay answers, the endpoints returned are, as a multiset, one
  endpoint for each peer whose hostname starts with \<open>tailmon/\<close> and that has an address,
  and none for any other peer. The endpoint of a peer carries the peer's first address, the
  single target made of that address and port 80, in brackets exactly when the address is
  not IPv4, and three labels: node name, exporter name and the overlay DNS name.
\<close>

theorem enumerator_includes:
  assumes "LocalClient tn = None" "Status_answer tn = Inr status"
  shows "\<exists>r. findTailmonEndpoints tn = Inr r
     \<and> mset (slice_elems r) =
         mset (map (\<lambda>v. peer_endpoint v (hd (TailscaleIPs v)))
                (filter (\<lambda>v. HasPrefix (HostName v) (str ''tailmon/'') \<and> TailscaleIPs v \<noteq> [])
                   (Peer status)))
     \<and> ip (peer_endpoint v ip0) = ip0
     \<and> Targets (peer_endpoint v ip0) =
         [if Is4 ip0 then String ip0 @ str '':80'' else str ''['' @ String ip0 @ str '']:80'']
     \<and> map fst (Labels (peer_endpoint v ip0)) =
         [str ''__meta_tailmon_node_name'', str ''__meta_tailmon_exporter_name'',
          str ''__meta_tailscale_dns_name'']
     \<and> map_of (Labels (peer_endpoint v ip0)) (str ''__meta_tailscale_dns_name'') = Some (DNSName v)"
proof -
  from findTailmonEndpoints_elems [OF assms] obtain r where
    r: "findTailmonEndpoints tn = Inr r" and
    el: "slice_elems r = sort_key (\<lambda>e. addr_key (ip e)) (slice_elems (endpoints_loop (Peer status) None))"
    by blast
  have "mset (slice_elems r) = mset (slice_elems (endpoints_loop (Peer status) None))"
    unfolding el by simp
  also have "slice_elems (endpoints_loop (Peer status) None) =
      map (\<lambda>v. peer_endpoint v (hd (TailscaleIPs v)))
        (filter (\<lambda>v. HasPrefix (HostName v) (str ''tailmon/'') \<and> TailscaleIPs v \<noteq> []) (Peer status))"
    unfolding endpoints_loop_elems by (simp add: slice_elems_def)
  finally have m: "mset (slice_elems r) =
         mset (map (\<lambda>v. peer_endpoint v (hd (TailscaleIPs v)))
                (filter (\<lambda>v. HasPrefix (HostName v) (str ''tailmon/'') \<and> TailscaleIPs v \<noteq> [])
                   (Peer status)))" .
  have t: "Targets (peer_endpoint v ip0) =
         [if Is4 ip0 then String ip0 @ str '':80'' else str ''['' @ String ip0 @ str '']:80'']"
    by (simp only: peer_endpoint_fields(2) formatAddr_80)
  show ?thesis
    apply (rule exI [of _ r])
    apply (intro conjI)
         apply (rule r)
        apply (rule m)
       apply (rule peer_endpoint_fields(1))
      apply (rule t)
     apply (rule peer_endpoint_fields(3))
    apply (rule peer_endpoint_fields(4))
    done
qed

text \<open>
  Claim C6. The endpoints returned are in ascending order of their addresses under
  \<^verbatim>\<open>Addr.Compare\<close> (no endpoint is followed by one that is \<^verbatim>\<open>Less\<close>), they are the endpoints
  collected by the loop, and the endpoints of any one address are in the order in which
  the loop met them.
\<close>

theorem enumerator_sorted_stable:
  assumes "LocalClient tn = None" "Status_answer tn = Inr status"
  shows "\<exists>r. findTailmonEndpoints tn = Inr r
     \<and> sorted_wrt (\<lambda>a b. Compare (ip a) (ip b) \<le> 0) (slice_elems r)
     \<and> sorted_wrt (\<lambda>a b. \<not> Less (ip b) (ip a)) (slice_elems r)
     \<and> mset (slice_elems r) = mset (slice_elems (endpoints_loop (Peer status) None))
     \<and> filter (\<lambda>e. Compare (ip e) a = 0) (slice_elems r) =
         filter (\<lambda>e. Compare (ip e) a = 0) (slice_elems (endpoints_loop (Peer status) None))"
proof -
  let ?k = "\<lambda>e :: Endpoint. addr_key (ip e)"
  let ?xs = "slice_elems (endpoints_loop (Peer status) None)"
  from findTailmonEndpoints_elems [OF assms] obtain r where
    r: "findTailmonEndpoints tn = Inr r" and el: "slice_elems r = sort_key ?k ?xs"
    by blast
  have "sorted (map ?k (sort_key ?k ?xs))" by (rule sorted_sort_key)
  then have s: "sorted_wrt (\<lambda>a b. ?k a \<le> ?k b) (slice_elems r)"
    unfolding el sorted_map .
  have s1: "sorted_wrt (\<lambda>a b. Compare (ip a) (ip b) \<le> 0) (slice_elems r)"
    using s unfolding Compare_le_key .
  have s2: "sorted_wrt (\<lambda>a b. \<not> Less (ip b) (ip a)) (slice_elems r)"
    using s unfolding Less_key not_less .
  have m: "mset (slice_elems r) = mset ?xs" unfolding el by simp
  have c0: "\<And>e. Compare (ip e) a = 0 \<longleftrightarrow> ?k e = addr_key a"
    unfolding Compare_key by auto
  have st: "filter (\<lambda>e. Compare (ip e) a = 0) (slice_elems r) = filter (\<lambda>e. Compare (ip e) a = 0) ?xs"
    unfolding el c0 by (rule sort_key_stable)
  show ?thesis
    apply (rule exI [of _ r])
    apply (intro conjI)
        apply (rule r)
       apply (rule s1)
      apply (rule s2)
     apply (rule m)
    apply (rule st)
    done
qed

lemma label_keys_distinct:
  "str ''__meta_tailmon_node_name'' \<noteq> str ''__meta_tailmon_exporter_name''"
  "str ''__meta_tailmon_node_name'' \<noteq> str ''__meta_tailscale_dns_name''"
  "str ''__meta_tailmon_exporter_name'' \<noteq> str ''__meta_tailscale_dns_name''"
  by (simp_all add: str_def)

lemma peer_endpoint_no_slash:
  assumes "rune_of CHR ''/'' \<notin> set (TrimPrefix (HostName v) (str ''tailmon/''))"
  shows "Labels (peer_endpoint v ip0) =
     [(str ''__meta_tailmon_node_name'', str ''unknown''),
      (str ''__meta_tailmon_exporter_name'', HostName v),
      (str ''__meta_tailscale_dns_name'', DNSName v)]"
  using Cut_absent [OF assms] by (simp add: peer_endpoint_def tailmon_prefix_def)

lemma peer_endpoint_slash:
  assumes "HostName v = str ''tailmon/'' @ exporter @ rune_of CHR ''/'' # node"
    "rune_of CHR ''/'' \<notin> set exporter"
  shows "Labels (peer_endpoint v ip0) =
     [(str ''__meta_tailmon_node_name'', node),
      (str ''__meta_tailmon_exporter_name'', exporter),
      (str ''__meta_tailscale_dns_name'', DNSName v)]"
proof -
  have hp: "HasPrefix (xs @ ys) xs" for xs ys :: gostring by (induction xs) simp_all
  have "TrimPrefix (HostName v) (str ''tailmon/'') = exporter @ rune_of CHR ''/'' # node"
    unfolding TrimPrefix_def assms(1) using hp by simp
  with Cut_append [OF assms(2), of node] show ?thesis
    by (simp add: peer_endpoint_def tailmon_prefix_def)
qed

text \<open>
  Claim C1, as the code has it. For a peer with an address whose hostname starts with
  \<open>tailmon/\<close> and has no \<open>/\<close> after the prefix, the enumerator returns an endpoint with the
  peer's first address whose node-name label is \<open>unknown\<close> and whose exporter-name label is
  the whole hostname, prefix included.
\<close>

theorem enumerator_no_node_segment:
  assumes "LocalClient tn = None" "Status_answer tn = Inr status"
    and "v \<in> set (Peer status)"
    and "HasPrefix (HostName v) (str ''tailmon/'')"
    and "rune_of CHR ''/'' \<notin> set (TrimPrefix (HostName v) (str ''tailmon/''))"
    and "TailscaleIPs v \<noteq> []"
  shows "\<exists>r. findTailmonEndpoints tn = Inr r
     \<and> (\<exists>e. e \<in> set (slice_elems r) \<and> ip e = hd (TailscaleIPs v)
           \<and> map_of (Labels e) (str ''__meta_tailmon_node_name'') = Some (str ''unknown'')
           \<and> map_of (Labels e) (str ''__meta_tailmon_exporter_name'') = Some (HostName v))"
proof -
  let ?q = "\<lambda>v. HasPrefix (HostName v) (str ''tailmon/'') \<and> TailscaleIPs v \<noteq> []"
  let ?e = "peer_endpoint v (hd (TailscaleIPs v))"
  from findTailmonEndpoints_elems [OF assms(1,2)] obtain r where
    r: "findTailmonEndpoints tn = Inr r" and
    el: "slice_elems r = sort_key (\<lambda>e. addr_key (ip e)) (slice_elems (endpoints_loop (Peer status) None))"
    by blast
  have "set (slice_elems r) = set (slice_elems (endpoints_loop (Peer status) None))"
    unfolding el by simp
  also have "\<dots> = (\<lambda>v. peer_endpoint v (hd (TailscaleIPs v))) ` set (filter ?q (Peer status))"
    unfolding endpoints_loop_elems by (simp add: slice_elems_def)
  finally have s: "set (slice_elems r) = (\<lambda>v. peer_endpoint v (hd (TailscaleIPs v))) ` set (filter ?q (Peer status))" .
  have "v \<in> set (filter ?q (Peer status))" using assms(3,4,6) by simp
  then have mem: "?e \<in> set (slice_elems r)" unfolding s by (rule imageI)
  have l: "Labels ?e = [(str ''__meta_tailmon_node_name'', str ''unknown''),
      (str ''__meta_tailmon_exporter_name'', HostName v),
      (str ''__meta_tailscale_dns_name'', DNSName v)]"
    by (rule peer_endpoint_no_slash [OF assms(5)])
  have n: "map_of (Labels ?e) (str ''__meta_tailmon_node_name'') = Some (str ''unknown'')"
    unfolding l by simp
  have x: "map_of (Labels ?e) (str ''__meta_tailmon_exporter_name'') = Some (HostName v)"
    unfolding l using label_keys_distinct by simp
  have i: "ip ?e = hd (TailscaleIPs v)" by (rule peer_endpoint_fields(1))
  show ?thesis
    apply (rule exI [of _ r])
    apply (rule conjI)
     apply (rule r)
    apply (rule exI [of _ ?e])
    apply (intro conjI)
       apply (rule mem)
      apply (rule i)
     apply (rule n)
    apply (rule x)
    done
qed

lemma endpoint_host1': "peer_endpoint peer_host1 (Addr4 0x64400001) = endpoint1"
  unfolding endpoint1_def by (rule endpoint_host1)

lemma endpoint_host2': "peer_endpoint peer_host2 (Addr4 0x64400002) = endpoint2"
  by (simp add: peer_endpoint_def peer_host2_def tailmon_prefix_def TrimPrefix_def render_defs
      str_def rune_of_def endpoint2_def)

lemma endpoint_custom': "peer_endpoint peer_custom (Addr4 0x64400004) = endpoint_custom_exporter"
  unfolding endpoint_custom_exporter_def by (rule endpoint_custom)

lemma example_prefixes:
  "HasPrefix (HostName peer_host1) tailmon_prefix" "HasPrefix (HostName peer_host2) tailmon_prefix"
  "\<not> HasPrefix (HostName peer_other) tailmon_prefix" "HasPrefix (HostName peer_custom) tailmon_prefix"
  "HasPrefix (HostName peer_noaddr) tailmon_prefix"
  by (simp_all add: peer_host1_def peer_host2_def peer_other_def peer_custom_def peer_noaddr_def
      tailmon_prefix_def str_def)

lemma example_ips:
  "TailscaleIPs peer_host1 = [Addr4 0x64400001, Addr6 0xfd7a0123444400000000000000000007 []]"
  "TailscaleIPs peer_host2 = [Addr4 0x64400002]"
  "TailscaleIPs peer_custom = [Addr4 0x64400004]"
  "TailscaleIPs peer_noaddr = []"
  by (simp_all add: peer_host1_def peer_host2_def peer_custom_def peer_noaddr_def)

lemma example_loop:
  "endpoints_loop [peer_host2, peer_other, peer_noaddr, peer_host1] None = Some [endpoint2, endpoint1]"
  by (simp add: example_prefixes example_ips endpoint_host1' endpoint_host2' append_slice_def)

lemma example_less:
  "Less (ip endpoint1) (ip endpoint2)" "\<not> Less (ip endpoint2) (ip endpoint1)"
  by (simp_all add: Less_key endpoint1_def endpoint2_def addr_key_def addr_hi_def addr_lo_def)

lemma example_enumeration:
  "findTailmonEndpoints (overlay_with [peer_host2, peer_other, peer_noaddr, peer_host1]) =
     Inr (Some [endpoint1, endpoint2])"
  by (simp add: findTailmonEndpoints_def overlay_with_def example_loop SliceStable_def example_less
      del: endpoints_loop.simps)

lemma example_custom:
  "findTailmonEndpoints (overlay_with [peer_custom]) = Inr (Some [endpoint_custom_exporter])"
  by (simp add: findTailmonEndpoints_def overlay_with_def example_prefixes example_ips
      endpoint_custom' append_slice_def SliceStable_def)

lemma example_none:
  "findTailmonEndpoints (overlay_with [peer_other, peer_noaddr]) = Inr None"
  by (simp add: findTailmonEndpoints_def overlay_with_def example_prefixes example_ips)

lemma overlay_with_ok:
  "LocalClient (overlay_with ps) = None"
  "Status_answer (overlay_with ps) = Inr \<lparr>BackendState = str ''Running'', AuthURL = [], Health = [],
        SelfIPs = [Addr4 0x64400009], Self = peer_other, Peer = ps\<rparr>"
  by (simp_all add: overlay_with_def)

lemma example_prefixes':
  "HasPrefix (HostName peer_host1) (str ''tailmon/'')" "HasPrefix (HostName peer_host2) (str ''tailmon/'')"
  "\<not> HasPrefix (HostName peer_other) (str ''tailmon/'')" "HasPrefix (HostName peer_custom) (str ''tailmon/'')"
  "HasPrefix (HostName peer_noaddr) (str ''tailmon/'')"
  using example_prefixes by (simp_all add: tailmon_prefix_def)

theorem enumerator_includes_witness:
  "\<exists>r. findTailmonEndpoints (overlay_with [peer_host2, peer_other, peer_noaddr, peer_host1]) = Inr r
     \<and> mset (slice_elems r) = {#endpoint2, endpoint1#}"
proof -
  from enumerator_includes [OF overlay_with_ok, of "[peer_host2, peer_other, peer_noaddr, peer_host1]"]
  obtain r where r: "findTailmonEndpoints (overlay_with [peer_host2, peer_other, peer_noaddr, peer_host1]) = Inr r"
    and m: "mset (slice_elems r) =
         mset (map (\<lambda>v. peer_endpoint v (hd (TailscaleIPs v)))
                (filter (\<lambda>v. HasPrefix (HostName v) (str ''tailmon/'') \<and> TailscaleIPs v \<noteq> [])
                   (Peer \<lparr>BackendState = str ''Running'', AuthURL = [], Health = [],
        SelfIPs = [Addr4 0x64400009], Self = peer_other, Peer = [peer_host2, peer_other, peer_noaddr, peer_host1]\<rparr>)))"
    by blast
  have "mset (slice_elems r) = {#endpoint2, endpoint1#}"
    unfolding m by (simp add: example_prefixes' example_ips endpoint_host1' endpoint_host2')
  with r show ?thesis by blast
qed

theorem enumerator_sorted_stable_witness:
  "findTailmonEndpoints (overlay_with [peer_host2, peer_other, peer_noaddr, peer_host1])
     = Inr (Some [endpoint1, endpoint2])
   \<and> Compare (ip endpoint1) (ip endpoint2) \<le> 0"
proof -
  from enumerator_sorted_stable [OF overlay_with_ok, of "[peer_host2, peer_other, peer_noaddr, peer_host1]"]
  obtain r where r: "findTailmonEndpoints (overlay_with [peer_host2, peer_other, peer_noaddr, peer_host1]) = Inr r"
    and s: "sorted_wrt (\<lambda>a b. Compare (ip a) (ip b) \<le> 0) (slice_elems r)"
    by blast
  from r example_enumeration have "r = Some [endpoint1, endpoint2]" by simp
  with s have "Compare (ip endpoint1) (ip endpoint2) \<le> 0" by (simp add: slice_elems_def)
  with example_enumeration show ?thesis by simp
qed

lemma example_no_slash:
  "rune_of CHR ''/'' \<notin> set (TrimPrefix (HostName peer_custom) (str ''tailmon/''))"
  "HostName peer_custom = str ''tailmon/custom-exporter''"
  by (simp_all add: peer_custom_def TrimPrefix_def str_def rune_of_def)

theorem enumerator_no_node_segment_witness:
  "\<exists>e. e \<in> set [endpoint_custom_exporter]
     \<and> map_of (Labels e) (str ''__meta_tailmon_node_name'') = Some (str ''unknown'')
     \<and> map_of (Labels e) (str ''__meta_tailmon_exporter_name'') = Some (str ''tailmon/custom-exporter'')"
proof -
  have mem: "peer_custom \<in> set (Peer \<lparr>BackendState = str ''Running'', AuthURL = [], Health = [],
        SelfIPs = [Addr4 0x64400009], Self = peer_other, Peer = [peer_custom]\<rparr>)" by simp
  have ne: "TailscaleIPs peer_custom \<noteq> []" by (simp add: example_ips)
  from enumerator_no_node_segment [OF overlay_with_ok mem example_prefixes'(4) example_no_slash(1) ne]
  obtain r e where "findTailmonEndpoints (overlay_with [peer_custom]) = Inr r"
    "e \<in> set (slice_elems r)"
    "map_of (Labels e) (str ''__meta_tailmon_node_name'') = Some (str ''unknown'')"
    "map_of (Labels e) (str ''__meta_tailmon_exporter_name'') = Some (HostName peer_custom)"
    by blast
  with example_custom example_no_slash(2) show ?thesis by (auto simp: slice_elems_def)
qed

text \<open>
  The claim as the specification words it fails: for the hostname
  \<open>tailmon/custom-exporter\<close> the exporter-name label is \<open>tailmon/custom-exporter\<close>, not
  \<open>custom-exporter\<close>.
\<close>

theorem enumerator_exporter_label_counterexample:
  "HostName peer_custom = str ''tailmon/custom-exporter''
   \<and> TailscaleIPs peer_custom = [Addr4 0x64400004]
   \<and> findTailmonEndpoints (overlay_with [peer_custom]) = Inr (Some [endpoint_custom_exporter])
   \<and> map_of (Labels endpoint_custom_exporter) (str ''__meta_tailmon_exporter_name'')
       = Some (str ''tailmon/custom-exporter'')
   \<and> str ''tailmon/custom-exporter'' \<noteq> str ''custom-exporter''"
proof (intro conjI)
  show "map_of (Labels endpoint_custom_exporter) (str ''__meta_tailmon_exporter_name'')
       = Some (str ''tailmon/custom-exporter'')"
    using label_keys_distinct by (simp add: endpoint_custom_exporter_def)
  show "str ''tailmon/custom-exporter'' \<noteq> str ''custom-exporter''" by (simp add: str_def)
qed (simp_all add: example_no_slash example_ips example_custom)

lemma marshalEndpoints_ok:
  assumes "LocalClient tn = None" "Status_answer tn = Inr status"
  shows "marshalEndpoints tn =
     Inr (if filter (\<lambda>v. HasPrefix (HostName v) (str ''tailmon/'') \<and> TailscaleIPs v \<noteq> []) (Peer status) = []
          then JNull
          else JArray (map marshal_Endpoint
                 (sort_key (\<lambda>e. addr_key (ip e)) (slice_elems (endpoints_loop (Peer status) None)))))"
proof (cases "endpoints_loop (Peer status) None")
  case None
  then have "filter (\<lambda>v. HasPrefix (HostName v) (str ''tailmon/'') \<and> TailscaleIPs v \<noteq> []) (Peer status) = []"
    by (simp add: endpoints_loop_nil)
  with None show ?thesis
    by (simp add: marshalEndpoints_def findTailmonEndpoints_ok [OF assms] marshal_slice_def)
next
  case (Some es)
  then have "filter (\<lambda>v. HasPrefix (HostName v) (str ''tailmon/'') \<and> TailscaleIPs v \<noteq> []) (Peer status) \<noteq> []"
    using endpoints_loop_nil [of "Peer status" None] by simp
  with Some show ?thesis
    by (simp add: marshalEndpoints_def findTailmonEndpoints_ok [OF assms] marshal_slice_def slice_elems_def)
qed

lemma marshal_peer_endpoint:
  "marshal_Endpoint (peer_endpoint v ip0) =
     JObject [(str ''targets'', JArray [JString (formatAddr ip0 80)]),
              (str ''labels'', JObject [(str ''__meta_tailmon_exporter_name'',
                                           JString (the (map_of (Labels (peer_endpoint v ip0)) (str ''__meta_tailmon_exporter_name'')))),
                                        (str ''__meta_tailmon_node_name'',
                                           JString (the (map_of (Labels (peer_endpoint v ip0)) (str ''__meta_tailmon_node_name'')))),
                                        (str ''__meta_tailscale_dns_name'', JString (DNSName v))])]"
  by (simp add: marshal_Endpoint_def peer_endpoint_def Let_def str_def split: prod.splits)

text \<open>
  Claim C4 at the inputs where the code departs from it: with no peer at all, and with
  peers none of which qualifies, the slice of endpoints stays nil and the document is
  \<open>null\<close>, not an empty array. (\<open>marshalEndpoints_ok\<close> gives the document for every peer
  list: an array as soon as one peer qualifies.)
\<close>

theorem marshalEndpoints_null:
  "marshalEndpoints (overlay_with []) = Inr JNull
   \<and> marshalEndpoints (overlay_with [peer_other, peer_noaddr]) = Inr JNull"
proof -
  have "findTailmonEndpoints (overlay_with []) = Inr None"
    by (simp add: findTailmonEndpoints_def overlay_with_def)
  then show ?thesis
    by (simp add: marshalEndpoints_def example_none marshal_slice_def)
qed

section \<open>The proxy request filter\<close>

text \<open>
  Claim C8. A request whose path is exactly \<open>/metrics\<close> is logged as accepted and handed to
  the reverse proxy for the configured upstream URL. For any other path the handler logs
  the rejection, answers 404 with the registered name (and a newline) as the body, and
  never hands anything to a reverse proxy.
\<close>

theorem proxy_filter:
  "(URL_Path r = str ''/metrics'' \<longrightarrow>
      NewProxyHandler upstreamURL nm r =
        [Log InfoLevel (str ''accept'') [zap_String (str ''path'') (str ''/metrics'')],
         ProxyServeHTTP upstreamURL r])
   \<and> (URL_Path r \<noteq> str ''/metrics'' \<longrightarrow>
      NewProxyHandler upstreamURL nm r =
        [Log InfoLevel (str ''reject'') [zap_String (str ''path'') (URL_Path r)],
         WriteHeader 404,
         WriteBody (nm @ [rune_of CHR 0x0A])]
      \<and> ProxyServeHTTP u' r' \<notin> set (NewProxyHandler upstreamURL nm r))"
proof (cases "URL_Path r = str ''/metrics''")
  case True
  then show ?thesis by (simp add: NewProxyHandler_def)
next
  case False
  then have run: "NewProxyHandler upstreamURL nm r =
        [Log InfoLevel (str ''reject'') [zap_String (str ''path'') (URL_Path r)],
         WriteHeader 404,
         WriteBody (nm @ [rune_of CHR 0x0A])]"
    by (simp add: NewProxyHandler_def StatusNotFound_def)
  have "ProxyServeHTTP u' r' \<notin> set (NewProxyHandler upstreamURL nm r)"
    unfolding run by simp
  with False run show ?thesis by simp
qed

theorem proxy_filter_witness:
  "NewProxyHandler (str ''http://localhost:9100'') (str ''tailmon/node-exporter/host1'') request_metrics =
        [Log InfoLevel (str ''accept'') [zap_String (str ''path'') (str ''/metrics'')],
         ProxyServeHTTP (str ''http://localhost:9100'') request_metrics]
   \<and> NewProxyHandler (str ''http://localhost:9100'') (str ''tailmon/node-exporter/host1'') request_root =
        [Log InfoLevel (str ''reject'') [zap_String (str ''path'') (str ''/'')],
         WriteHeader 404,
         WriteBody (str ''tailmon/node-exporter/host1'' @ [rune_of CHR 0x0A])]
   \<and> ProxyServeHTTP (str ''http://localhost:9100'') request_root
        \<notin> set (NewProxyHandler (str ''http://localhost:9100'') (str ''tailmon/node-exporter/host1'') request_root)"
proof -
  have a: "URL_Path request_metrics = str ''/metrics''" by (simp add: request_metrics_def)
  have b: "URL_Path request_root \<noteq> str ''/metrics''" "URL_Path request_root = str ''/''"
    by (simp_all add: request_root_def str_def)
  from proxy_filter [of request_metrics "str ''http://localhost:9100''" "str ''tailmon/node-exporter/host1''"]
    proxy_filter [of request_root "str ''http://localhost:9100''" "str ''tailmon/node-exporter/host1''"
      "str ''http://localhost:9100''" request_root] a b
  show ?thesis by simp
qed

section \<open>Waiting for authentication\<close>

lemma turn_effects_simps:
  "turn_effects (Inl err) = [Log ErrorLevel (str ''StatusWithoutPeers'') [zap_Error err], Sleep 1]"
  "turn_effects (Inr ss) =
     log_status ss #
       (if AuthURL ss \<noteq> []
        then [Log ErrorLevel (str ''Needs authentication'') [zap_String (str ''url'') (AuthURL ss)]]
        else []) @ [Sleep 1]"
  by (simp_all add: turn_effects_def)

lemma poll_loop_not_running:
  "\<forall>a\<in>set answers. \<not> shows_Running a \<Longrightarrow>
     poll_loop answers = (concat (map turn_effects answers), Polling)"
proof (induction answers)
  case Nil show ?case by simp
next
  case (Cons a answers)
  then have ih: "poll_loop answers = (concat (map turn_effects answers), Polling)" by simp
  show ?case
  proof (cases a)
    case (Inl err)
    with ih show ?thesis by (simp add: turn_effects_simps)
  next
    case (Inr ss)
    with Cons.prems have "BackendState ss \<noteq> str ''Running''" by (simp add: shows_Running_def)
    with Inr ih show ?thesis by (simp add: turn_effects_simps)
  qed
qed

lemma poll_loop_running:
  assumes "\<forall>a\<in>set answers. \<not> shows_Running a" "BackendState ss = str ''Running''"
  shows "poll_loop (answers @ Inr ss # later) =
     (concat (map turn_effects answers) @ [log_status ss, log_running ss], Exited)"
  using assms(1)
proof (induction answers)
  case Nil show ?case using assms(2) by simp
next
  case (Cons a answers)
  then have ih: "poll_loop (answers @ Inr ss # later) =
     (concat (map turn_effects answers) @ [log_status ss, log_running ss], Exited)" by simp
  show ?case
  proof (cases a)
    case (Inl err)
    with ih show ?thesis by (simp add: turn_effects_simps)
  next
    case (Inr s1)
    with Cons.prems have "BackendState s1 \<noteq> str ''Running''" by (simp add: shows_Running_def)
    with Inr ih show ?thesis by (simp add: turn_effects_simps)
  qed
qed

lemma poll_loop_exits_iff:
  "snd (poll_loop answers) = Exited \<longleftrightarrow> (\<exists>a\<in>set answers. shows_Running a)"
proof (cases "\<forall>a\<in>set answers. \<not> shows_Running a")
  case True
  with poll_loop_not_running [OF True] show ?thesis by simp
next
  case False
  then have "\<exists>a\<in>set answers. shows_Running a" by blast
  then obtain pre a post where sp: "answers = pre @ a # post" and a: "shows_Running a"
    and pre: "\<forall>b\<in>set pre. \<not> shows_Running b"
    using split_list_first_prop [of answers shows_Running] by blast
  from a obtain ss where ss: "a = Inr ss" "BackendState ss = str ''Running''"
    by (cases a) (simp_all add: shows_Running_def)
  from poll_loop_running [OF pre ss(2), of post] sp ss(1) False show ?thesis by simp
qed

text \<open>
  Claim C9. As long as no answer shows the state \<open>Running\<close> the loop is still polling, and
  its effects are those of one turn per answer: a failed query is logged as an error and
  followed by a sleep of one second; a status is logged, its authentication URL, if it has
  one, is logged at error level, and a sleep of one second follows. At the first answer
  that shows \<open>Running\<close> the loop logs the node's identity, DNS name and addresses and is
  left, whatever answers would come later. So the loop is left exactly when an answer
  shows \<open>Running\<close>.
\<close>

theorem auth_loop_until_Running:
  "((\<forall>a\<in>set answers. \<not> shows_Running a) \<longrightarrow>
       poll_loop answers = (concat (map turn_effects answers), Polling))
   \<and> ((\<forall>a\<in>set answers. \<not> shows_Running a) \<and> BackendState ss = str ''Running'' \<longrightarrow>
       poll_loop (answers @ Inr ss # later) =
         (concat (map turn_effects answers) @ [log_status ss, log_running ss], Exited))
   \<and> (snd (poll_loop answers') = Exited \<longleftrightarrow> (\<exists>a\<in>set answers'. shows_Running a))
   \<and> auth_task None answers' = poll_loop answers'
   \<and> turn_effects (Inl err) =
       [Log ErrorLevel (str ''StatusWithoutPeers'') [zap_Error err], Sleep 1]
   \<and> (AuthURL s1 \<noteq> [] \<longrightarrow> turn_effects (Inr s1) =
       [log_status s1,
        Log ErrorLevel (str ''Needs authentication'') [zap_String (str ''url'') (AuthURL s1)],
        Sleep 1])
   \<and> (AuthURL s1 = [] \<longrightarrow> turn_effects (Inr s1) = [log_status s1, Sleep 1])
   \<and> log_running ss =
       Log InfoLevel (str ''tailnet running'')
         [zap_String (str ''id'') (PeerID (Self ss)),
          zap_String (str ''dns'') (DNSName (Self ss)),
          zap_Strings (str ''ips'') (map String (SelfIPs ss))]"
proof (intro conjI impI)
  assume "\<forall>a\<in>set answers. \<not> shows_Running a"
  then show "poll_loop answers = (concat (map turn_effects answers), Polling)"
    by (rule poll_loop_not_running)
next
  assume "(\<forall>a\<in>set answers. \<not> shows_Running a) \<and> BackendState ss = str ''Running''"
  then show "poll_loop (answers @ Inr ss # later) =
         (concat (map turn_effects answers) @ [log_status ss, log_running ss], Exited)"
    using poll_loop_running [of answers ss later] by simp
next
  show "snd (poll_loop answers') = Exited \<longleftrightarrow> (\<exists>a\<in>set answers'. shows_Running a)"
    by (rule poll_loop_exits_iff)
next
  show "auth_task None answers' = poll_loop answers'" by (simp add: auth_task_def)
next
  show "turn_effects (Inl err) =
       [Log ErrorLevel (str ''StatusWithoutPeers'') [zap_Error err], Sleep 1]"
    by (rule turn_effects_simps)
next
  assume "AuthURL s1 \<noteq> []"
  then show "turn_effects (Inr s1) =
       [log_status s1,
        Log ErrorLevel (str ''Needs authentication'') [zap_String (str ''url'') (AuthURL s1)],
        Sleep 1]" by (simp add: turn_effects_simps)
next
  assume "AuthURL s1 = []"
  then show "turn_effects (Inr s1) = [log_status s1, Sleep 1]" by (simp add: turn_effects_simps)
next
  show "log_running ss =
       Log InfoLevel (str ''tailnet running'')
         [zap_String (str ''id'') (PeerID (Self ss)),
          zap_String (str ''dns'') (DNSName (Self ss)),
          zap_Strings (str ''ips'') (map String (SelfIPs ss))]"
    by (rule log_running_def)
qed

lemma example_states:
  "\<not> shows_Running (Inl (LibraryError (str ''connection refused'')))"
  "\<not> shows_Running (Inr status_needs_auth)"
  "BackendState status_running = str ''Running''"
  "AuthURL status_needs_auth = str ''https://login.example.com/a/1234''"
  "str ''https://login.example.com/a/1234'' \<noteq> []"
  by (simp_all add: shows_Running_def status_needs_auth_def status_running_def str_def)

theorem auth_loop_until_Running_witness:
  "poll_loop [Inl (LibraryError (str ''connection refused'')), Inr status_needs_auth] =
     ([Log ErrorLevel (str ''StatusWithoutPeers'') [zap_Error (LibraryError (str ''connection refused''))],
       Sleep 1,
       log_status status_needs_auth,
       Log ErrorLevel (str ''Needs authentication'')
         [zap_String (str ''url'') (str ''https://login.example.com/a/1234'')],
       Sleep 1], Polling)
   \<and> poll_loop [Inl (LibraryError (str ''connection refused'')), Inr status_needs_auth,
                Inr status_running, Inr status_needs_auth] =
     ([Log ErrorLevel (str ''StatusWithoutPeers'') [zap_Error (LibraryError (str ''connection refused''))],
       Sleep 1,
       log_status status_needs_auth,
       Log ErrorLevel (str ''Needs authentication'')
         [zap_String (str ''url'') (str ''https://login.example.com/a/1234'')],
       Sleep 1,
       log_status status_running, log_running status_running], Exited)"
proof -
  let ?as = "[Inl (LibraryError (str ''connection refused'')), Inr status_needs_auth]"
  have no: "\<forall>a\<in>set ?as. \<not> shows_Running a" using example_states by simp
  note t = auth_loop_until_Running [of ?as status_running "[Inr status_needs_auth]" ?as
      "LibraryError (str ''connection refused'')" status_needs_auth]
  from t no example_states show ?thesis by simp
qed

end
